theory Spec2Isabelle
  imports Complex_Main "HOL-Library.AList" "HOL-Library.Sublist"
begin

section \<open>Python built-ins used by the sources\<close>

text \<open>
  A Python \<open>str\<close> is modelled as a \<open>string\<close>, a list of characters. The built-ins below
  are the ones the sources call: the operator \<open>in\<close> on strings (the library's
  \<open>sublist\<close>), truthiness of an \<open>Optional[str]\<close>, the operator \<open>or\<close> on such a value,
  \<open>str.split\<close> with a one-character separator and \<open>str.replace\<close>.

  \<open>str.lower\<close> maps every cased character of Unicode to its lower-case form. That table
  is part of the interpreter, not of the sources, so the functions that call
  \<open>str.lower\<close> take it as a parameter \<open>lower\<close> of type \<open>case_mapping\<close>, and what is
  proved about them holds for every such function. \<open>ascii_lower\<close> is what \<open>str.lower\<close>
  does on a text whose only cased characters are ASCII letters; it is used to
  evaluate the examples, all of which are such texts.
\<close>

type_synonym case_mapping = "string \<Rightarrow> string"

definition ascii_uppercase :: string where
  "ascii_uppercase = ''ABCDEFGHIJKLMNOPQRSTUVWXYZ''"

definition ascii_lowercase :: string where
  "ascii_lowercase = ''abcdefghijklmnopqrstuvwxyz''"

definition ascii_lower_char :: "char \<Rightarrow> char" where
  "ascii_lower_char c =
     (case map_of (zip ascii_uppercase ascii_lowercase) c of None \<Rightarrow> c | Some d \<Rightarrow> d)"

definition ascii_lower :: case_mapping where
  "ascii_lower s = map ascii_lower_char s"

text \<open>\<open>sub in s\<close> on strings.\<close>

definition str_in :: "string \<Rightarrow> string \<Rightarrow> bool" where
  "str_in sub s = sublist sub s"

text \<open>An \<open>Optional[str]\<close> in a boolean context: \<open>None\<close> and the empty string are false.\<close>

definition truthy :: "string option \<Rightarrow> bool" where
  "truthy v = (case v of None \<Rightarrow> False | Some t \<Rightarrow> t \<noteq> [])"

text \<open>\<open>a or b\<close> with \<open>a\<close> an \<open>Optional[str]\<close> and \<open>b\<close> a \<open>str\<close>.\<close>

definition py_or :: "string option \<Rightarrow> string \<Rightarrow> string" where
  "py_or a b = (case a of None \<Rightarrow> b | Some t \<Rightarrow> if t = [] then b else t)"

text \<open>\<open>s.split(sep)\<close> for a separator of one character: never an empty list.\<close>

fun str_split :: "char \<Rightarrow> string \<Rightarrow> string list" where
  "str_split sep [] = [[]]"
| "str_split sep (c # cs) =
     (if c = sep then [] # str_split sep cs
      else (case str_split sep cs of
              [] \<Rightarrow> [[c]]
            | w # ws \<Rightarrow> (c # w) # ws))"

text \<open>
  \<open>s.replace(old, new)\<close>: every occurrence of \<open>old\<close>, found from the left and without
  overlap, becomes \<open>new\<close>. With an empty \<open>old\<close> Python puts \<open>new\<close> before every character
  and at the end.
\<close>

function str_replace :: "string \<Rightarrow> string \<Rightarrow> string \<Rightarrow> string" where
  "str_replace old new s =
     (if old = [] then new @ concat (map (\<lambda>c. c # new) s)
      else if s = [] then []
      else if prefix old s then new @ str_replace old new (drop (length old) s)
      else hd s # str_replace old new (tl s))"
  by pat_completeness auto
termination
  by (relation "measure (\<lambda>(old, new, s). length s)") auto

declare str_replace.simps [simp del]

section \<open>xml\_cleaner.py: escaping and unescaping\<close>

text \<open>
  The two class attributes are dictionaries; a loop over \<open>items()\<close> visits them in the
  order they are written, so they are association lists here.
\<close>

definition XML_ESCAPE_MAP :: "(string \<times> string) list" where
  "XML_ESCAPE_MAP =
     [([CHR ''&''], ''&amp;''),
      ([CHR ''<''], ''&lt;''),
      ([CHR ''>''], ''&gt;''),
      ([CHR 0x22], ''&quot;''),
      ([CHR 0x27], ''&apos;'')]"

definition XML_UNESCAPE_MAP :: "(string \<times> string) list" where
  "XML_UNESCAPE_MAP =
     [(''&amp;'', [CHR ''&'']),
      (''&lt;'', [CHR ''<'']),
      (''&gt;'', [CHR ''>'']),
      (''&quot;'', [CHR 0x22]),
      (''&apos;'', [CHR 0x27])]"

text \<open>
  \<open>escape_xml_chars\<close>: \<open>if not text: return text\<close>, then one \<open>replace\<close> per entry of
  \<open>XML_ESCAPE_MAP\<close>, each on the result of the one before.
\<close>

definition escape_xml_chars :: "string \<Rightarrow> string" where
  "escape_xml_chars text =
     (if text = [] then text
      else fold (\<lambda>(char, replacement) escaped_text. str_replace char replacement escaped_text)
             XML_ESCAPE_MAP text)"

text \<open>\<open>unescape_xml_chars\<close>: the same loop over \<open>XML_UNESCAPE_MAP\<close>.\<close>

definition unescape_xml_chars :: "string \<Rightarrow> string" where
  "unescape_xml_chars text =
     (if text = [] then text
      else fold (\<lambda>(replacement, char) unescaped_text. str_replace replacement char unescaped_text)
             XML_UNESCAPE_MAP text)"

section \<open>The triple source (rdflib)\<close>

text \<open>
  The parser reads the document through rdflib. A term of a graph is a URI reference, a
  blank node or a literal with an optional language tag; \<open>str\<close> of a term is its text.
  A graph is the list of its triples in the order the store iterates them; the pattern
  queries \<open>triples\<close>, \<open>subjects\<close> and \<open>objects\<close> filter that list, and
  \<open>(s, p, o) in g\<close> is membership. \<open>isinstance(t, Literal)\<close> is \<open>is_Literal t\<close>.
\<close>

datatype rdf_term =
    URIRef string
  | BNode string
  | is_Literal: Literal string (language: "string option")

fun str_of :: "rdf_term \<Rightarrow> string" where
  "str_of (URIRef u) = u"
| "str_of (BNode b) = b"
| "str_of (Literal v lang) = v"

type_synonym rdf_triple = "rdf_term \<times> rdf_term \<times> rdf_term"
type_synonym rdf_graph = "rdf_triple list"

definition pattern_ok :: "rdf_term option \<Rightarrow> rdf_term \<Rightarrow> bool" where
  "pattern_ok pat t = (case pat of None \<Rightarrow> True | Some x \<Rightarrow> x = t)"

definition graph_triples ::
  "rdf_graph \<Rightarrow> rdf_term option \<Rightarrow> rdf_term option \<Rightarrow> rdf_term option \<Rightarrow> rdf_triple list" where
  "graph_triples g s p ob =
     filter (\<lambda>(s', p', o'). pattern_ok s s' \<and> pattern_ok p p' \<and> pattern_ok ob o') g"

definition graph_subjects :: "rdf_graph \<Rightarrow> rdf_term \<Rightarrow> rdf_term \<Rightarrow> rdf_term list" where
  "graph_subjects g p ob = map fst (graph_triples g None (Some p) (Some ob))"

definition graph_objects :: "rdf_graph \<Rightarrow> rdf_term \<Rightarrow> rdf_term \<Rightarrow> rdf_term list" where
  "graph_objects g s p = map (\<lambda>(s', p', o'). o') (graph_triples g (Some s) (Some p) None)"

definition graph_contains :: "rdf_graph \<Rightarrow> rdf_triple \<Rightarrow> bool" where
  "graph_contains g t = List.member g t"

definition RDF_type :: rdf_term where
  "RDF_type = URIRef ''http://www.w3.org/1999/02/22-rdf-syntax-ns#type''"

definition RDFS_label :: rdf_term where
  "RDFS_label = URIRef ''http://www.w3.org/2000/01/rdf-schema#label''"

definition RDFS_subClassOf :: rdf_term where
  "RDFS_subClassOf = URIRef ''http://www.w3.org/2000/01/rdf-schema#subClassOf''"

definition OWL_Class :: rdf_term where
  "OWL_Class = URIRef ''http://www.w3.org/2002/07/owl#Class''"

definition OWL_Restriction :: rdf_term where
  "OWL_Restriction = URIRef ''http://www.w3.org/2002/07/owl#Restriction''"

definition OWL_onProperty :: rdf_term where
  "OWL_onProperty = URIRef ''http://www.w3.org/2002/07/owl#onProperty''"

definition OWL_someValuesFrom :: rdf_term where
  "OWL_someValuesFrom = URIRef ''http://www.w3.org/2002/07/owl#someValuesFrom''"

text \<open>\<open>Namespace(base)[name]\<close> is the URI reference \<open>base + name\<close>.\<close>

definition OBO :: "string \<Rightarrow> rdf_term" where
  "OBO name = URIRef (''http://purl.obolibrary.org/obo/'' @ name)"

definition OBOINOWL_id :: rdf_term where
  "OBOINOWL_id = URIRef (''http://www.geneontology.org/formats/oboInOwl#'' @ ''id'')"

definition PART_OF :: rdf_term where
  "PART_OF = OBO ''BFO_0000050''"

section \<open>schema.py: the node model\<close>

datatype ParentRelation = ParentRelation (parentId: string) (p_relationType: string)

datatype ChildRelation = ChildRelation (childId: string) (c_relationType: string)

text \<open>
  \<open>TreeNode\<close>. The fields \<open>id\<close> and \<open>definition\<close> are \<open>id_s\<close> and \<open>definition_en\<close> here.
\<close>

record TreeNode =
  id_s :: string
  label :: "string option"
  label_zh :: "string option"
  definition_en :: "string option"
  definition_zh :: "string option"
  iri :: "string option"
  isLeaf :: bool
  count :: "int option"
  children :: "ChildRelation list"
  parents :: "ParentRelation list"

text \<open>
  The constructor call \<open>TreeNode(id=..., label=..., ...)\<close> with the defaults of the
  schema for the fields it leaves out: \<open>isLeaf = True\<close>, \<open>count = 0\<close>, fresh empty lists.
\<close>

definition TreeNode_init ::
  "string \<Rightarrow> string option \<Rightarrow> string option \<Rightarrow> string option \<Rightarrow> string option \<Rightarrow>
   string option \<Rightarrow> TreeNode" where
  "TreeNode_init i l lz d dz r =
     \<lparr>id_s = i, label = l, label_zh = lz, definition_en = d, definition_zh = dz, iri = r,
      isLeaf = True, count = Some 0, children = [], parents = []\<rparr>"

text \<open>\<open>TreeNode(id=node_id)\<close>: a node with nothing but its id.\<close>

definition TreeNode_stub :: "string \<Rightarrow> TreeNode" where
  "TreeNode_stub i = TreeNode_init i None None None None None"

text \<open>
  \<open>Dict[str, TreeNode]\<close>: an association list in insertion order. \<open>nodes[k] = v\<close> is
  \<open>AList.update\<close> (a key already there keeps its place, a new key goes last), \<open>k in nodes\<close>
  is \<open>dict_has\<close>, \<open>nodes.values()\<close> is \<open>dict_values\<close>, and a mutation of the object
  \<open>nodes[k]\<close> is \<open>AList.map_entry\<close>.
\<close>

type_synonym node_dict = "(string \<times> TreeNode) list"

definition dict_has :: "node_dict \<Rightarrow> string \<Rightarrow> bool" where
  "dict_has nodes k = (case map_of nodes k of None \<Rightarrow> False | Some n \<Rightarrow> True)"

definition dict_values :: "node_dict \<Rightarrow> TreeNode list" where
  "dict_values nodes = map snd nodes"

section \<open>ontology\_parser.py: building the graph\<close>

text \<open>
  \<open>_get_literal\<close>: the first object of \<open>(subject, predicate)\<close> that is a literal and,
  when a language is asked for, carries that language.
\<close>

fun first_literal :: "string option \<Rightarrow> rdf_term list \<Rightarrow> string option" where
  "first_literal lang [] = None"
| "first_literal lang (obj # objs) =
     (if is_Literal obj
      then (if lang = None \<or> language obj = lang then Some (str_of obj)
            else first_literal lang objs)
      else first_literal lang objs)"

definition get_literal ::
  "rdf_graph \<Rightarrow> rdf_term \<Rightarrow> rdf_term \<Rightarrow> string option \<Rightarrow> string option" where
  "get_literal graph subject predicate lang =
     first_literal lang (graph_objects graph subject predicate)"

text \<open>
  Step 1 of \<open>parse_ontology\<close>: one node per subject typed \<open>owl:Class\<close>, stored under its
  id; a later class with the same id replaces the node.
\<close>

definition declare_class :: "rdf_graph \<Rightarrow> rdf_term \<Rightarrow> node_dict \<Rightarrow> node_dict" where
  "declare_class g s nodes =
     (let iri = str_of s;
          node_id = py_or (get_literal g s OBOINOWL_id None) (last (str_split CHR ''/'' iri));
          label = get_literal g s RDFS_label None;
          label_zh = get_literal g s RDFS_label (Some ''zh'');
          definition_en = get_literal g s (OBO ''IAO_0000115'') None;
          definition_zh = get_literal g s (OBO ''IAO_0000115'') (Some ''zh'')
      in AList.update node_id
           (TreeNode_init node_id label label_zh definition_en definition_zh (Some iri)) nodes)"

definition step1 :: "rdf_graph \<Rightarrow> node_dict \<Rightarrow> node_dict" where
  "step1 g nodes = fold (declare_class g) (graph_subjects g RDF_type OWL_Class) nodes"

text \<open>
  The body both edge loops share (lines 60 to 72 and 87 to 99, which differ in the
  relation type only): create the two nodes if they are missing, append the parent
  relation to the child, the child relation to the parent, and clear the parent's
  \<open>isLeaf\<close>.
\<close>

definition link_nodes :: "string \<Rightarrow> string \<Rightarrow> string \<Rightarrow> node_dict \<Rightarrow> node_dict" where
  "link_nodes rel child_id parent_id nodes =
     (let nodes1 = (if \<not> dict_has nodes child_id
                    then AList.update child_id (TreeNode_stub child_id) nodes else nodes);
          nodes2 = (if \<not> dict_has nodes1 parent_id
                    then AList.update parent_id (TreeNode_stub parent_id) nodes1 else nodes1);
          nodes3 = AList.map_entry child_id
                     (\<lambda>n. n\<lparr>parents := parents n @ [ParentRelation parent_id rel]\<rparr>) nodes2;
          nodes4 = AList.map_entry parent_id
                     (\<lambda>n. n\<lparr>children := children n @ [ChildRelation child_id rel]\<rparr>) nodes3
      in AList.map_entry parent_id (\<lambda>n. n\<lparr>isLeaf := False\<rparr>) nodes4)"

text \<open>
  Step 2: every \<open>rdfs:subClassOf\<close> triple whose object is not typed \<open>owl:Restriction\<close>.
\<close>

definition subclass_edge :: "rdf_graph \<Rightarrow> rdf_triple \<Rightarrow> node_dict \<Rightarrow> node_dict" where
  "subclass_edge g t nodes =
     (case t of (s, p, ob) \<Rightarrow>
        if graph_contains g (ob, RDF_type, OWL_Restriction) then nodes
        else
          (let child_id = py_or (get_literal g s OBOINOWL_id None)
                            (last (str_split CHR ''/'' (str_of s)));
               parent_id = py_or (get_literal g ob OBOINOWL_id None)
                             (last (str_split CHR ''/'' (str_of ob)))
           in link_nodes ''subClassOf'' child_id parent_id nodes))"

definition step2 :: "rdf_graph \<Rightarrow> node_dict \<Rightarrow> node_dict" where
  "step2 g nodes =
     fold (subclass_edge g) (graph_triples g None (Some RDFS_subClassOf) None) nodes"

text \<open>
  Step 3: every \<open>rdfs:subClassOf\<close> triple whose object is typed \<open>owl:Restriction\<close>; for
  each \<open>owl:onProperty\<close> triple of the restriction whose object reads as \<open>PART_OF\<close>, and
  for each \<open>owl:someValuesFrom\<close> triple of the restriction, one part-of link.
\<close>

definition partof_target ::
  "rdf_graph \<Rightarrow> rdf_term \<Rightarrow> rdf_triple \<Rightarrow> node_dict \<Rightarrow> node_dict" where
  "partof_target g s t nodes =
     (case t of (r, p, parent_uri) \<Rightarrow>
        (let child_id = py_or (get_literal g s OBOINOWL_id None)
                          (last (str_split CHR ''/'' (str_of s)));
             parent_id = py_or (get_literal g parent_uri OBOINOWL_id None)
                           (last (str_split CHR ''/'' (str_of parent_uri)))
         in link_nodes ''partOf'' child_id parent_id nodes))"

definition partof_property ::
  "rdf_graph \<Rightarrow> rdf_term \<Rightarrow> rdf_term \<Rightarrow> rdf_triple \<Rightarrow> node_dict \<Rightarrow> node_dict" where
  "partof_property g s restriction t nodes =
     (case t of (r, p, property_uri) \<Rightarrow>
        if str_of property_uri = str_of PART_OF
        then fold (partof_target g s)
               (graph_triples g (Some restriction) (Some OWL_someValuesFrom) None) nodes
        else nodes)"

definition partof_edge :: "rdf_graph \<Rightarrow> rdf_triple \<Rightarrow> node_dict \<Rightarrow> node_dict" where
  "partof_edge g t nodes =
     (case t of (s, p, restriction) \<Rightarrow>
        if graph_contains g (restriction, RDF_type, OWL_Restriction)
        then fold (partof_property g s restriction)
               (graph_triples g (Some restriction) (Some OWL_onProperty) None) nodes
        else nodes)"

definition step3 :: "rdf_graph \<Rightarrow> node_dict \<Rightarrow> node_dict" where
  "step3 g nodes =
     fold (partof_edge g) (graph_triples g None (Some RDFS_subClassOf) None) nodes"

text \<open>Step 4: \<open>node.count = len(node.children)\<close> for every node.\<close>

definition step4 :: "node_dict \<Rightarrow> node_dict" where
  "step4 nodes = map (\<lambda>(k, node). (k, node\<lparr>count := Some (int (length (children node)))\<rparr>)) nodes"

definition build_nodes :: "rdf_graph \<Rightarrow> node_dict" where
  "build_nodes g = step4 (step3 g (step2 g (step1 g [])))"

text \<open>
  \<open>parse_ontology\<close>. The document store maps a path to the graph \<open>Graph().parse\<close> loads
  from it, or to \<open>None\<close> when the file cannot be read or is not well-formed; the
  exception of \<open>parse\<close> leaves the function at once.
\<close>

datatype error = SourceUnavailable | ExportFailed

type_synonym triple_source = "string \<Rightarrow> rdf_graph option"

definition parse_ontology :: "triple_source \<Rightarrow> string \<Rightarrow> error + node_dict" where
  "parse_ontology src file_path =
     (case src file_path of
        None \<Rightarrow> Inl SourceUnavailable
      | Some g \<Rightarrow> Inr (build_nodes g))"

text \<open>
  \<open>save_nodes_to_json\<close>. What \<open>json.dump\<close> writes is a JSON value; \<open>node.dict()\<close> is the
  object of the ten fields of a node. The function reads the clock twice (for the file
  name and for \<open>generated_at\<close>) and writes one file; the record \<open>export_env\<close> holds what
  the clock returns, already formatted, and whether a path can be written (creating its
  directory and opening it may raise). The result is the path returned together with
  the value written to it.
\<close>

datatype json =
    JNull
  | JBool bool
  | JInt int
  | JString string
  | JArray "json list"
  | JObject "(string \<times> json) list"

definition json_opt_str :: "string option \<Rightarrow> json" where
  "json_opt_str v = (case v of None \<Rightarrow> JNull | Some t \<Rightarrow> JString t)"

definition json_opt_int :: "int option \<Rightarrow> json" where
  "json_opt_int v = (case v of None \<Rightarrow> JNull | Some i \<Rightarrow> JInt i)"

definition ChildRelation_dict :: "ChildRelation \<Rightarrow> json" where
  "ChildRelation_dict c =
     JObject [(''childId'', JString (childId c)), (''relationType'', JString (c_relationType c))]"

definition ParentRelation_dict :: "ParentRelation \<Rightarrow> json" where
  "ParentRelation_dict p =
     JObject [(''parentId'', JString (parentId p)), (''relationType'', JString (p_relationType p))]"

definition TreeNode_dict :: "TreeNode \<Rightarrow> json" where
  "TreeNode_dict node =
     JObject
       [(''id'', JString (id_s node)),
        (''label'', json_opt_str (label node)),
        (''label_zh'', json_opt_str (label_zh node)),
        (''definition'', json_opt_str (definition_en node)),
        (''definition_zh'', json_opt_str (definition_zh node)),
        (''iri'', json_opt_str (iri node)),
        (''isLeaf'', JBool (isLeaf node)),
        (''count'', json_opt_int (count node)),
        (''children'', JArray (map ChildRelation_dict (children node))),
        (''parents'', JArray (map ParentRelation_dict (parents node)))]"

record export_env =
  now_stamp :: string
  now_iso :: string
  writable :: "string \<Rightarrow> bool"

definition save_nodes_to_json ::
  "export_env \<Rightarrow> node_dict \<Rightarrow> string option \<Rightarrow> error + (string \<times> json)" where
  "save_nodes_to_json env nodes output_file_arg =
     (let output_file =
            (case output_file_arg of
               None \<Rightarrow> ''ontology_nodes_'' @ now_stamp env @ ''.json''
             | Some f \<Rightarrow> f);
          nodes_data =
            fold (\<lambda>(node_id, node) nodes_data. AList.update node_id (TreeNode_dict node) nodes_data)
              nodes [];
          output_data =
            JObject
              [(''metadata'',
                JObject
                  [(''total_nodes'', JInt (int (length nodes))),
                   (''generated_at'', JString (now_iso env)),
                   (''description'', JString ''Parsed ontology nodes from OWL file'')]),
               (''nodes'', JObject nodes_data)]
      in if writable env output_file then Inr (output_file, output_data)
         else Inl ExportFailed)"

text \<open>Reading a member of a JSON object back.\<close>

definition json_get :: "json \<Rightarrow> string \<Rightarrow> json option" where
  "json_get j k = (case j of JObject kvs \<Rightarrow> map_of kvs k | _ \<Rightarrow> None)"

section \<open>ontology\_service.py: the caching query service\<close>

text \<open>
  \<open>OntologyService\<close>: the path of the document, the cached dictionary and the time it
  was built. Time is what \<open>time.time()\<close> returns, a number of seconds. Every method
  takes the document store and the current time, and returns its result (or the
  exception that left it) together with the service after the call.
\<close>

record OntologyService =
  owl_file_path :: string
  cache :: "node_dict option"
  cache_timestamp :: "real option"

definition OntologyService_init :: "string \<Rightarrow> OntologyService" where
  "OntologyService_init path = \<lparr>owl_file_path = path, cache = None, cache_timestamp = None\<rparr>"

text \<open>
  The test of \<open>_get_parsed_data\<close>:
  \<open>_cache is None or _cache_timestamp is None or current_time - _cache_timestamp > 3600\<close>.
  When it holds the method parses the document; an exception of the parser leaves the
  method before either attribute is assigned. When it fails the cache is not \<open>None\<close>
  and is returned as it is (the branch for \<open>None\<close> in that case is never taken).
\<close>

definition cache_stale :: "real \<Rightarrow> OntologyService \<Rightarrow> bool" where
  "cache_stale current_time self =
     (case cache self of
        None \<Rightarrow> True
      | Some d \<Rightarrow>
          (case cache_timestamp self of
             None \<Rightarrow> True
           | Some ts \<Rightarrow> current_time - ts > 3600))"

definition get_parsed_data ::
  "triple_source \<Rightarrow> real \<Rightarrow> OntologyService \<Rightarrow> (error + node_dict) \<times> OntologyService" where
  "get_parsed_data src current_time self =
     (if cache_stale current_time self
      then (case parse_ontology src (owl_file_path self) of
              Inl e \<Rightarrow> (Inl e, self)
            | Inr d \<Rightarrow> (Inr d, self\<lparr>cache := Some d, cache_timestamp := Some current_time\<rparr>))
      else (case cache self of
              None \<Rightarrow> (Inr [], self)
            | Some d \<Rightarrow> (Inr d, self)))"

definition get_all_terms ::
  "triple_source \<Rightarrow> real \<Rightarrow> OntologyService \<Rightarrow> (error + TreeNode list) \<times> OntologyService" where
  "get_all_terms src current_time self =
     (case get_parsed_data src current_time self of
        (Inl e, self') \<Rightarrow> (Inl e, self')
      | (Inr data, self') \<Rightarrow> (Inr (dict_values data), self'))"

definition get_term_by_id ::
  "triple_source \<Rightarrow> real \<Rightarrow> OntologyService \<Rightarrow> string \<Rightarrow>
   (error + TreeNode option) \<times> OntologyService" where
  "get_term_by_id src current_time self term_id =
     (case get_parsed_data src current_time self of
        (Inl e, self') \<Rightarrow> (Inl e, self')
      | (Inr data, self') \<Rightarrow> (Inr (map_of data term_id), self'))"

text \<open>
  \<open>search_terms\<close>, with \<open>str.lower\<close> as the parameter \<open>lower\<close>. One test of the loop
  body, \<open>field and query_lower in field.lower()\<close>, is \<open>field_hit\<close>; the body appends the term at the first field that hits and goes on
  to the next term.
\<close>

definition field_hit :: "case_mapping \<Rightarrow> string \<Rightarrow> string option \<Rightarrow> bool" where
  "field_hit lower query_lower field =
     (case field of
        None \<Rightarrow> False
      | Some t \<Rightarrow> truthy (Some t) \<and> str_in query_lower (lower t))"

definition search_step ::
  "case_mapping \<Rightarrow> string \<Rightarrow> TreeNode \<Rightarrow> TreeNode list \<Rightarrow> TreeNode list" where
  "search_step lower query_lower term results =
     (if field_hit lower query_lower (label term) then results @ [term]
      else if field_hit lower query_lower (label_zh term) then results @ [term]
      else if field_hit lower query_lower (definition_en term) then results @ [term]
      else if field_hit lower query_lower (definition_zh term) then results @ [term]
      else results)"

definition search_data :: "case_mapping \<Rightarrow> string \<Rightarrow> node_dict \<Rightarrow> TreeNode list" where
  "search_data lower query data =
     (let query_lower = lower query
      in fold (search_step lower query_lower) (dict_values data) [])"

definition search_terms ::
  "case_mapping \<Rightarrow> triple_source \<Rightarrow> real \<Rightarrow> OntologyService \<Rightarrow> string \<Rightarrow>
   (error + TreeNode list) \<times> OntologyService" where
  "search_terms lower src current_time self query =
     (case get_parsed_data src current_time self of
        (Inl e, self') \<Rightarrow> (Inl e, self')
      | (Inr data, self') \<Rightarrow> (Inr (search_data lower query data), self'))"

definition export_to_json ::
  "triple_source \<Rightarrow> export_env \<Rightarrow> real \<Rightarrow> OntologyService \<Rightarrow> string option \<Rightarrow>
   (error + (string \<times> json)) \<times> OntologyService" where
  "export_to_json src env current_time self output_file =
     (case get_parsed_data src current_time self of
        (Inl e, self') \<Rightarrow> (Inl e, self')
      | (Inr data, self') \<Rightarrow> (save_nodes_to_json env data output_file, self'))"

text \<open>
  \<open>get_statistics\<close>: one pass over the terms with four counters; the inner loop counts
  the parent relations of each type.
\<close>

record Statistics =
  total_terms :: nat
  total_classes :: nat
  total_relations :: nat
  subClassOf_relations :: nat
  partOf_relations :: nat
  leaf_nodes :: nat
  max_depth :: nat

fun count_parent :: "ParentRelation \<Rightarrow> nat \<times> nat \<Rightarrow> nat \<times> nat" where
  "count_parent parent (subClassOf_n, partOf_n) =
     (if p_relationType parent = ''subClassOf'' then (subClassOf_n + 1, partOf_n)
      else if p_relationType parent = ''partOf'' then (subClassOf_n, partOf_n + 1)
      else (subClassOf_n, partOf_n))"

fun stats_step :: "TreeNode \<Rightarrow> nat \<times> nat \<times> nat \<times> nat \<Rightarrow> nat \<times> nat \<times> nat \<times> nat" where
  "stats_step term (subClassOf_n, partOf_n, leaf_n, max_d) =
     (case fold count_parent (parents term) (subClassOf_n, partOf_n) of
        (subClassOf_n', partOf_n') \<Rightarrow>
          (subClassOf_n', partOf_n',
           (if isLeaf term then leaf_n + 1 else leaf_n),
           max max_d (length (parents term))))"

definition statistics_of :: "node_dict \<Rightarrow> Statistics" where
  "statistics_of data =
     (let terms = dict_values data
      in (case fold stats_step terms (0, 0, 0, 0) of
            (subClassOf_n, partOf_n, leaf_n, max_d) \<Rightarrow>
              \<lparr>total_terms = length terms,
               total_classes = length terms,
               total_relations = subClassOf_n + partOf_n,
               subClassOf_relations = subClassOf_n,
               partOf_relations = partOf_n,
               leaf_nodes = leaf_n,
               max_depth = max_d\<rparr>))"

definition get_statistics ::
  "triple_source \<Rightarrow> real \<Rightarrow> OntologyService \<Rightarrow> (error + Statistics) \<times> OntologyService" where
  "get_statistics src current_time self =
     (case get_parsed_data src current_time self of
        (Inl e, self') \<Rightarrow> (Inl e, self')
      | (Inr data, self') \<Rightarrow> (Inr (statistics_of data), self'))"

definition clear_cache :: "OntologyService \<Rightarrow> OntologyService" where
  "clear_cache self = self\<lparr>cache := None, cache_timestamp := None\<rparr>"

section \<open>Observations used in the statements\<close>

text \<open>
  The id the parser computes for an entity, at each of the five places where it needs
  one: \<open>_get_literal(g, x, OBOINOWL.id) or str(x).split("/")[-1]\<close>.
\<close>

definition resolve_id :: "rdf_graph \<Rightarrow> rdf_term \<Rightarrow> string" where
  "resolve_id g x =
     py_or (get_literal g x OBOINOWL_id None) (last (str_split CHR ''/'' (str_of x)))"

text \<open>The edges of the node stored under an id; none when there is no such node.\<close>

definition node_parents :: "node_dict \<Rightarrow> string \<Rightarrow> ParentRelation list" where
  "node_parents nodes k = (case map_of nodes k of None \<Rightarrow> [] | Some n \<Rightarrow> parents n)"

definition node_children :: "node_dict \<Rightarrow> string \<Rightarrow> ChildRelation list" where
  "node_children nodes k = (case map_of nodes k of None \<Rightarrow> [] | Some n \<Rightarrow> children n)"

text \<open>
  The targets the two inner loops of step 3 visit for one restriction, in order: for
  every \<open>owl:onProperty\<close> triple of the restriction whose object reads as \<open>PART_OF\<close>,
  the objects of all its \<open>owl:someValuesFrom\<close> triples.
\<close>

definition partof_targets :: "rdf_graph \<Rightarrow> rdf_term \<Rightarrow> rdf_term list" where
  "partof_targets g restriction =
     concat (map (\<lambda>property_uri.
                    if str_of property_uri = str_of PART_OF
                    then graph_objects g restriction OWL_someValuesFrom else [])
                 (graph_objects g restriction OWL_onProperty))"

text \<open>
  The edges the two edge loops make, as pairs (child id, parent id) in the order they
  are made: step 2 one per subclass-of triple whose object is not typed as a
  restriction, step 3 one per subclass-of triple whose object is typed as a
  restriction and per target of that restriction.
\<close>

definition subclass_edges :: "rdf_graph \<Rightarrow> (string \<times> string) list" where
  "subclass_edges g =
     map (\<lambda>(s, p, ob). (resolve_id g s, resolve_id g ob))
       (filter (\<lambda>(s, p, ob). \<not> graph_contains g (ob, RDF_type, OWL_Restriction))
          (graph_triples g None (Some RDFS_subClassOf) None))"

definition partof_edges :: "rdf_graph \<Rightarrow> (string \<times> string) list" where
  "partof_edges g =
     concat (map (\<lambda>(s, p, r). map (\<lambda>target. (resolve_id g s, resolve_id g target))
                                  (partof_targets g r))
               (filter (\<lambda>(s, p, r). graph_contains g (r, RDF_type, OWL_Restriction))
                  (graph_triples g None (Some RDFS_subClassOf) None)))"

text \<open>Invariants of the build, used in the proofs.\<close>

definition reciprocal :: "node_dict \<Rightarrow> bool" where
  "reciprocal nodes =
     (\<forall>c p T. count_list (node_parents nodes c) (ParentRelation p T) =
              count_list (node_children nodes p) (ChildRelation c T))"

definition leaf_ok :: "node_dict \<Rightarrow> bool" where
  "leaf_ok nodes = (\<forall>k n. map_of nodes k = Some n \<longrightarrow> (isLeaf n \<longleftrightarrow> children n = []))"

definition no_edges :: "node_dict \<Rightarrow> bool" where
  "no_edges nodes =
     (\<forall>k n. map_of nodes k = Some n \<longrightarrow> isLeaf n \<and> children n = [] \<and> parents n = [])"

text \<open>
  The scenarios of the specification as one document: class \<open>MS_1\<close> with id \<open>MS:1\<close>, an
  English and a Chinese label; class \<open>MS_2\<close> with id \<open>MS:2\<close>, a subclass of \<open>MS_1\<close>;
  \<open>MS_3\<close>, never declared, a subclass of a restriction that says part-of \<open>MS_4\<close>. A
  second document stands for the file after it has been edited.
\<close>

definition example_graph :: rdf_graph where
  "example_graph =
     [(OBO ''MS_1'', RDF_type, OWL_Class),
      (OBO ''MS_1'', OBOINOWL_id, Literal ''MS:1'' None),
      (OBO ''MS_1'', RDFS_label, Literal ''instrument'' None),
      (OBO ''MS_1'', RDFS_label,
         Literal [CHR 0xE4, CHR 0xBB, CHR 0xAA, CHR 0xE5, CHR 0x99, CHR 0xA8] (Some ''zh'')),
      (OBO ''MS_2'', RDF_type, OWL_Class),
      (OBO ''MS_2'', OBOINOWL_id, Literal ''MS:2'' None),
      (OBO ''MS_2'', RDFS_subClassOf, OBO ''MS_1''),
      (OBO ''MS_3'', RDFS_subClassOf, BNode ''r1''),
      (BNode ''r1'', RDF_type, OWL_Restriction),
      (BNode ''r1'', OWL_onProperty, PART_OF),
      (BNode ''r1'', OWL_someValuesFrom, OBO ''MS_4'')]"

definition edited_graph :: rdf_graph where
  "edited_graph =
     [(OBO ''MS_9'', RDF_type, OWL_Class),
      (OBO ''MS_9'', RDFS_label, Literal ''detector'' None)]"

text \<open>
  Three small documents: a restriction on part-of with no \<open>owl:someValuesFrom\<close>, a
  restriction on another property, and a class whose id annotation is the empty string.
\<close>

definition lacking_graph :: rdf_graph where
  "lacking_graph =
     [(OBO ''MS_3'', RDFS_subClassOf, BNode ''r1''),
      (BNode ''r1'', RDF_type, OWL_Restriction),
      (BNode ''r1'', OWL_onProperty, PART_OF)]"

definition other_property_graph :: rdf_graph where
  "other_property_graph =
     [(OBO ''MS_3'', RDFS_subClassOf, BNode ''r1''),
      (BNode ''r1'', RDF_type, OWL_Restriction),
      (BNode ''r1'', OWL_onProperty, OBO ''RO_0000086''),
      (BNode ''r1'', OWL_someValuesFrom, OBO ''MS_4'')]"

definition empty_id_graph :: rdf_graph where
  "empty_id_graph =
     [(OBO ''MS_1'', RDF_type, OWL_Class),
      (OBO ''MS_1'', OBOINOWL_id, Literal [] None)]"

definition example_source :: triple_source where
  "example_source path = Some example_graph"

definition edited_source :: triple_source where
  "edited_source path = Some edited_graph"

definition broken_source :: triple_source where
  "broken_source path = None"

text \<open>A service that has answered one request at time 0 from the first document.\<close>

definition served :: OntologyService where
  "served = snd (get_all_terms example_source 0 (OntologyService_init ''psi-ms-zh.owl''))"

definition example_env :: export_env where
  "example_env =
     \<lparr>now_stamp = ''20240101_120000'', now_iso = ''2024-01-01T12:00:00'',
      writable = (\<lambda>path. True)\<rparr>"

section \<open>Theorems\<close>

subsection \<open>Escaping followed by unescaping\<close>

text \<open>
  C10. The claim: for every string \<open>t\<close>, \<open>unescape_xml_chars (escape_xml_chars t) = t\<close>,
  also for a text that already holds an entity such as \<open>&lt;\<close>. The code does not do
  this: its comment asks for \<open>&amp;\<close> to be restored last, and \<open>XML_UNESCAPE_MAP\<close>
  lists it first. On the text \<open>&lt;\<close> escaping gives \<open>&amp;lt;\<close>; unescaping first
  turns that into \<open>&lt;\<close> and then into \<open><\<close>.
\<close>

theorem escape_unescape_entity_lost:
  "escape_xml_chars ''&lt;'' = ''&amp;lt;'' \<and>
   unescape_xml_chars (escape_xml_chars ''&lt;'') = ''<'' \<and>
   unescape_xml_chars (escape_xml_chars ''&lt;'') \<noteq> ''&lt;''"
  by code_simp

subsection \<open>The edge loops and their invariants\<close>

lemma fold_preserves:
  assumes "\<And>x s. P s \<Longrightarrow> P (f x s)" and "P s"
  shows "P (fold f xs s)"
  using assms(2) by (induction xs arbitrary: s) (simp_all add: assms(1))

lemma map_of_link_nodes:
  "map_of (link_nodes rel c p nodes) k =
     (let m1 = (\<lambda>k. case map_of nodes k of
                       None \<Rightarrow> (if k = c \<or> k = p then Some (TreeNode_stub k) else None)
                     | Some n \<Rightarrow> Some n);
          m2 = (\<lambda>k. if k = c
                     then map_option (\<lambda>n. n\<lparr>parents := parents n @ [ParentRelation p rel]\<rparr>) (m1 k)
                     else m1 k)
      in if k = p
         then map_option
                (\<lambda>n. n\<lparr>children := children n @ [ChildRelation c rel], isLeaf := False\<rparr>) (m2 k)
         else m2 k)"
  by (auto simp: link_nodes_def Let_def dict_has_def update_conv' map_of_map_entry
      split: option.splits)

lemma node_parents_link:
  "node_parents (link_nodes rel c p nodes) k =
     node_parents nodes k @ (if k = c then [ParentRelation p rel] else [])"
  by (auto simp: node_parents_def map_of_link_nodes Let_def TreeNode_stub_def TreeNode_init_def
      split: option.splits)

lemma node_children_link:
  "node_children (link_nodes rel c p nodes) k =
     node_children nodes k @ (if k = p then [ChildRelation c rel] else [])"
  by (auto simp: node_children_def map_of_link_nodes Let_def TreeNode_stub_def TreeNode_init_def
      split: option.splits)

lemma reciprocal_link: "reciprocal nodes \<Longrightarrow> reciprocal (link_nodes rel c p nodes)"
  by (simp add: reciprocal_def node_parents_link node_children_link)

lemma distinct_link:
  "distinct (map fst nodes) \<Longrightarrow> distinct (map fst (link_nodes rel c p nodes))"
  by (simp add: link_nodes_def Let_def distinct_update distinct_map_entry)

lemma leaf_ok_link: "leaf_ok nodes \<Longrightarrow> leaf_ok (link_nodes rel c p nodes)"
  unfolding leaf_ok_def
proof (intro allI impI)
  fix k n
  assume inv: "\<forall>k n. map_of nodes k = Some n \<longrightarrow> isLeaf n = (children n = [])"
    and n: "map_of (link_nodes rel c p nodes) k = Some n"
  show "isLeaf n = (children n = [])"
  proof (cases "k = p")
    case True
    with n show ?thesis
      by (auto simp: map_of_link_nodes Let_def split: if_splits)
  next
    case False
    with n have
      "(\<exists>n0. map_of nodes k = Some n0 \<and> children n = children n0 \<and> isLeaf n = isLeaf n0)
       \<or> (children n = [] \<and> isLeaf n)"
      by (auto simp: map_of_link_nodes Let_def TreeNode_stub_def TreeNode_init_def
          split: if_splits option.splits)
    with inv show ?thesis by auto
  qed
qed

lemma no_edges_declare: "no_edges nodes \<Longrightarrow> no_edges (declare_class g s nodes)"
  by (simp add: no_edges_def declare_class_def Let_def update_conv' TreeNode_init_def)

lemma no_edges_step1: "no_edges (step1 g [])"
  unfolding step1_def
  by (rule fold_preserves [where P = no_edges]) (erule no_edges_declare, simp add: no_edges_def)

lemma distinct_step1: "distinct (map fst (step1 g []))"
  unfolding step1_def
  by (rule fold_preserves [where P = "\<lambda>n. distinct (map fst n)"])
     (simp_all add: declare_class_def Let_def distinct_update)

lemma steps_preserve:
  assumes "\<And>rel c p nodes. P nodes \<Longrightarrow> P (link_nodes rel c p nodes)"
  shows "P nodes \<Longrightarrow> P (step2 g nodes)" and "P nodes \<Longrightarrow> P (step3 g nodes)"
proof -
  have t: "P (partof_target g s t n)" if "P n" for s t n
    using that by (cases t) (simp add: partof_target_def Let_def assms)
  have pp: "P (partof_property g s r t n)" if "P n" for s r t n
    using that by (cases t) (simp add: partof_property_def fold_preserves [where P = P] t)
  have pe: "P (partof_edge g t n)" if "P n" for t n
    using that by (cases t) (simp add: partof_edge_def fold_preserves [where P = P] pp)
  have se: "P (subclass_edge g t n)" if "P n" for t n
    using that by (cases t) (simp add: subclass_edge_def Let_def assms)
  show "P nodes \<Longrightarrow> P (step2 g nodes)"
    unfolding step2_def by (rule fold_preserves [where P = P]) (rule se)
  show "P nodes \<Longrightarrow> P (step3 g nodes)"
    unfolding step3_def by (rule fold_preserves [where P = P]) (rule pe)
qed

lemma map_of_step4:
  "map_of (step4 nodes) k =
     map_option (\<lambda>node. node\<lparr>count := Some (int (length (children node)))\<rparr>) (map_of nodes k)"
  by (simp add: step4_def map_of_map)

lemma keys_step4: "map fst (step4 nodes) = map fst nodes"
  by (simp add: step4_def case_prod_beta comp_def)

lemma node_parents_step4: "node_parents (step4 nodes) k = node_parents nodes k"
  by (simp add: node_parents_def map_of_step4 split: option.splits)

lemma node_children_step4: "node_children (step4 nodes) k = node_children nodes k"
  by (simp add: node_children_def map_of_step4 split: option.splits)

lemma reciprocal_build: "reciprocal (build_nodes g)"
proof -
  have "reciprocal (step1 g [])"
    using no_edges_step1 [of g]
    by (auto simp: reciprocal_def no_edges_def node_parents_def node_children_def
        split: option.splits)
  then have "reciprocal (step2 g (step1 g []))"
    by (rule steps_preserve(1) [where P = reciprocal, rotated]) (rule reciprocal_link)
  then have "reciprocal (step3 g (step2 g (step1 g [])))"
    by (rule steps_preserve(2) [where P = reciprocal, rotated]) (rule reciprocal_link)
  then show ?thesis
    by (simp add: reciprocal_def build_nodes_def node_parents_step4 node_children_step4)
qed

lemma leaf_ok_build: "leaf_ok (step3 g (step2 g (step1 g [])))"
proof -
  have "leaf_ok (step1 g [])"
    using no_edges_step1 [of g] by (auto simp: leaf_ok_def no_edges_def)
  then have "leaf_ok (step2 g (step1 g []))"
    by (rule steps_preserve(1) [where P = leaf_ok, rotated]) (rule leaf_ok_link)
  then show ?thesis
    by (rule steps_preserve(2) [where P = leaf_ok, rotated]) (rule leaf_ok_link)
qed

lemma distinct_build: "distinct (map fst (build_nodes g))"
proof -
  have "distinct (map fst (step2 g (step1 g [])))"
    by (rule steps_preserve(1) [where P = "\<lambda>n. distinct (map fst n)"])
       (simp_all add: distinct_link distinct_step1)
  then have "distinct (map fst (step3 g (step2 g (step1 g []))))"
    by (rule steps_preserve(2) [where P = "\<lambda>n. distinct (map fst n)", rotated])
       (simp add: distinct_link)
  then show ?thesis by (simp add: build_nodes_def keys_step4)
qed

subsection \<open>Reciprocity of the edges\<close>

text \<open>
  C2. \<open>parse_ontology\<close> returns \<open>build_nodes g\<close> for the graph \<open>g\<close> it has loaded. In the
  graph this one build pass produces, for all ids \<open>c\<close> and \<open>p\<close> and every relation
  type \<open>T\<close> (so for \<open>subClassOf\<close> and for \<open>partOf\<close>), the parent edge \<open>(p, T)\<close> occurs in
  the parents of \<open>c\<close> exactly as many times as the child edge \<open>(c, T)\<close> occurs in the
  children of \<open>p\<close>: one child edge per parent edge and the other way round, and so
  \<open>c\<close> carries the parent edge if and only if \<open>p\<close> carries the child edge.
\<close>

theorem build_reciprocity:
  "count_list (node_parents (build_nodes g) c) (ParentRelation p T) =
     count_list (node_children (build_nodes g) p) (ChildRelation c T)
   \<and> (ParentRelation p T \<in> set (node_parents (build_nodes g) c) \<longleftrightarrow>
      ChildRelation c T \<in> set (node_children (build_nodes g) p))"
proof -
  have eq: "count_list (node_parents (build_nodes g) c) (ParentRelation p T) =
     count_list (node_children (build_nodes g) p) (ChildRelation c T)"
    using reciprocal_build [of g] by (simp add: reciprocal_def)
  have "ParentRelation p T \<in> set (node_parents (build_nodes g) c) \<longleftrightarrow>
      0 < count_list (node_parents (build_nodes g) c) (ParentRelation p T)"
    by (simp add: count_list_0_iff zero_less_iff_neq_zero)
  also have "\<dots> \<longleftrightarrow> 0 < count_list (node_children (build_nodes g) p) (ChildRelation c T)"
    by (simp add: eq)
  also have "\<dots> \<longleftrightarrow> ChildRelation c T \<in> set (node_children (build_nodes g) p)"
    by (simp add: count_list_0_iff zero_less_iff_neq_zero)
  finally show ?thesis using eq by simp
qed

subsection \<open>Leaf flag and child count\<close>

text \<open>
  C6. Every node \<open>n\<close> of the graph one build pass produces has \<open>count\<close> equal to the
  length of its \<open>children\<close>, and \<open>isLeaf\<close> true if and only if it has no child edge.
\<close>

theorem build_leaf_count:
  assumes "n \<in> set (dict_values (build_nodes g))"
  shows "count n = Some (int (length (children n))) \<and> (isLeaf n \<longleftrightarrow> children n = [])"
proof -
  from assms obtain k where "(k, n) \<in> set (build_nodes g)"
    by (auto simp: dict_values_def)
  then have "map_of (build_nodes g) k = Some n"
    using distinct_build by simp
  then obtain n0 where n0: "map_of (step3 g (step2 g (step1 g []))) k = Some n0"
    and n: "n = n0\<lparr>count := Some (int (length (children n0)))\<rparr>"
    by (auto simp: build_nodes_def map_of_step4)
  from leaf_ok_build n0 have "isLeaf n0 \<longleftrightarrow> children n0 = []"
    by (simp add: leaf_ok_def)
  with n show ?thesis by simp
qed

theorem build_leaf_count_witness:
  "hd (dict_values (build_nodes example_graph)) \<in> set (dict_values (build_nodes example_graph))
   \<and> count (hd (dict_values (build_nodes example_graph))) = Some 1
   \<and> length (children (hd (dict_values (build_nodes example_graph)))) = 1
   \<and> isLeaf (hd (dict_values (build_nodes example_graph))) = False"
proof -
  have h: "hd (dict_values (build_nodes example_graph)) \<in> set (dict_values (build_nodes example_graph))"
    by code_simp
  have l: "length (children (hd (dict_values (build_nodes example_graph)))) = 1"
    by code_simp
  from build_leaf_count [OF h] l h show ?thesis by auto
qed

subsection \<open>Id resolution\<close>

lemma str_split_nonempty: "str_split sep s \<noteq> []"
  by (induction s) (auto split: list.splits)

lemma str_split_no_sep: "sep \<notin> set s \<Longrightarrow> str_split sep s = [s]"
  by (induction s) auto

lemma takeWhile_append_if:
  "takeWhile P (xs @ ys) = (if \<forall>x\<in>set xs. P x then xs @ takeWhile P ys else takeWhile P xs)"
  by (induction xs) auto

lemma str_split_has_sep: "sep \<in> set s \<Longrightarrow> \<exists>w v vs. str_split sep s = w # v # vs"
proof (induction s)
  case Nil
  then show ?case by simp
next
  case (Cons c cs)
  obtain w ws where sp: "str_split sep cs = w # ws"
    using str_split_nonempty [of sep cs] by (cases "str_split sep cs") auto
  show ?case
  proof (cases "c = sep")
    case True
    with sp show ?thesis by simp
  next
    case False
    with Cons.prems have "sep \<in> set cs" by simp
    from Cons.IH [OF this] False show ?thesis by auto
  qed
qed

lemma last_str_split:
  "last (str_split sep s) = rev (takeWhile (\<lambda>c. c \<noteq> sep) (rev s))"
proof (induction s)
  case Nil
  show ?case by simp
next
  case (Cons c cs)
  show ?case
  proof (cases "sep \<in> set cs")
    case True
    from str_split_has_sep [OF True] obtain w v vs where sp: "str_split sep cs = w # v # vs"
      by blast
    from True have "rev (takeWhile (\<lambda>c. c \<noteq> sep) (rev (c # cs))) =
        rev (takeWhile (\<lambda>c. c \<noteq> sep) (rev cs))"
      by (auto simp: takeWhile_append_if)
    with sp Cons.IH show ?thesis by simp
  next
    case False
    then show ?thesis
      by (auto simp: str_split_no_sep takeWhile_append_if)
  qed
qed

lemma first_literal_None:
  "first_literal None objs =
     (case filter is_Literal objs of [] \<Rightarrow> None | l # ls \<Rightarrow> Some (str_of l))"
  by (induction objs) auto

text \<open>
  C7. The claim: within one build pass the id of an entity is the same wherever the
  entity is met (declared class, child side, parent side, restriction target), namely
  the id annotation literal if the entity has one, otherwise the last path segment of
  its URI. The code uses one expression at all those places, so the id is the same
  everywhere; but the expression is \<open>_get_literal(...) or ...\<close>, and \<open>or\<close> also rejects
  an empty literal. Amended: the id is the text of the first id annotation literal of
  the entity if there is one and it is not empty, otherwise the last path segment.
  The theorem gives the node step 1 stores, the link steps 2 and 3 make, and the value
  of the id.
\<close>

theorem resolve_id_everywhere:
  "declare_class g s nodes =
     AList.update (resolve_id g s)
       (TreeNode_init (resolve_id g s) (get_literal g s RDFS_label None)
          (get_literal g s RDFS_label (Some ''zh''))
          (get_literal g s (OBO ''IAO_0000115'') None)
          (get_literal g s (OBO ''IAO_0000115'') (Some ''zh'')) (Some (str_of s))) nodes
   \<and> (\<not> graph_contains g (ob, RDF_type, OWL_Restriction) \<longrightarrow>
        subclass_edge g (s, p, ob) nodes =
          link_nodes ''subClassOf'' (resolve_id g s) (resolve_id g ob) nodes)
   \<and> partof_target g s (r, p', target) nodes =
        link_nodes ''partOf'' (resolve_id g s) (resolve_id g target) nodes
   \<and> resolve_id g x =
       (case filter is_Literal (graph_objects g x OBOINOWL_id) of
          [] \<Rightarrow> rev (takeWhile (\<lambda>c. c \<noteq> CHR ''/'') (rev (str_of x)))
        | l # ls \<Rightarrow>
            if str_of l = [] then rev (takeWhile (\<lambda>c. c \<noteq> CHR ''/'') (rev (str_of x)))
            else str_of l)"
  by (simp add: declare_class_def subclass_edge_def partof_target_def resolve_id_def Let_def
      get_literal_def first_literal_None last_str_split py_or_def split: list.splits)

theorem resolve_id_everywhere_witness:
  "\<not> graph_contains example_graph (OBO ''MS_1'', RDF_type, OWL_Restriction)
   \<and> subclass_edge example_graph (OBO ''MS_2'', RDFS_subClassOf, OBO ''MS_1'') [] =
       link_nodes ''subClassOf'' ''MS:2'' ''MS:1'' []
   \<and> resolve_id example_graph (OBO ''MS_4'') = ''MS_4''"
proof -
  have h: "\<not> graph_contains example_graph (OBO ''MS_1'', RDF_type, OWL_Restriction)"
    by code_simp
  have i: "resolve_id example_graph (OBO ''MS_2'') = ''MS:2''"
    "resolve_id example_graph (OBO ''MS_1'') = ''MS:1''"
    "resolve_id example_graph (OBO ''MS_4'') = ''MS_4''"
    by code_simp+
  from resolve_id_everywhere [of example_graph "OBO ''MS_2''" "[]" "OBO ''MS_1''" RDFS_subClassOf]
    h i
  show ?thesis by simp
qed

text \<open>
  The claim as stated fails on a class whose id annotation is the empty string: the
  literal is there, and the node is stored under the last path segment.
\<close>

theorem resolve_id_empty_literal_counterexample:
  "get_literal empty_id_graph (OBO ''MS_1'') OBOINOWL_id None = Some []
   \<and> map fst (build_nodes empty_id_graph) = [''MS_1'']
   \<and> map id_s (dict_values (build_nodes empty_id_graph)) = [''MS_1'']"
  by code_simp

subsection \<open>Restrictions and part-of edges\<close>

lemma fold_partof_property:
  "fold (partof_property g s r) ts nodes =
     fold (partof_target g s)
       (concat (map (\<lambda>(r', p', property_uri).
                  if str_of property_uri = str_of PART_OF
                  then graph_triples g (Some r) (Some OWL_someValuesFrom) None else []) ts)) nodes"
  by (induction ts arbitrary: nodes) (auto simp: partof_property_def)

lemma fold_partof_target:
  "fold (partof_target g s) ts nodes =
     fold (\<lambda>target. link_nodes ''partOf'' (resolve_id g s) (resolve_id g target))
       (map (\<lambda>(r', p', o'). o') ts) nodes"
  by (induction ts arbitrary: nodes) (auto simp: partof_target_def resolve_id_def Let_def)

lemma partof_edge_targets:
  "graph_contains g (r, RDF_type, OWL_Restriction) \<Longrightarrow>
   partof_edge g (s, p, r) nodes =
     fold (\<lambda>target. link_nodes ''partOf'' (resolve_id g s) (resolve_id g target))
       (partof_targets g r) nodes"
  by (simp add: partof_edge_def fold_partof_property fold_partof_target partof_targets_def
      graph_objects_def map_concat comp_def case_prod_beta if_distrib [of "map _"] cong: if_cong)

lemma step2_skips:
  "step2 g nodes =
     fold (subclass_edge g)
       (filter (\<lambda>(s, p, ob). \<not> graph_contains g (ob, RDF_type, OWL_Restriction))
          (graph_triples g None (Some RDFS_subClassOf) None)) nodes"
proof -
  have "fold (subclass_edge g) ts n =
     fold (subclass_edge g)
       (filter (\<lambda>(s, p, ob). \<not> graph_contains g (ob, RDF_type, OWL_Restriction)) ts) n" for ts n
    by (induction ts arbitrary: n) (auto simp: subclass_edge_def)
  then show ?thesis by (simp add: step2_def)
qed

lemma step3_only:
  "step3 g nodes =
     fold (partof_edge g)
       (filter (\<lambda>(s, p, ob). graph_contains g (ob, RDF_type, OWL_Restriction))
          (graph_triples g None (Some RDFS_subClassOf) None)) nodes"
proof -
  have "fold (partof_edge g) ts n =
     fold (partof_edge g)
       (filter (\<lambda>(s, p, ob). graph_contains g (ob, RDF_type, OWL_Restriction)) ts) n" for ts n
    by (induction ts arbitrary: n) (auto simp: partof_edge_def)
  then show ?thesis by (simp add: step3_def)
qed

lemma link_nodes_effect:
  "(\<exists>n. map_of (link_nodes rel c t nodes) c = Some n \<and>
        parents n = node_parents nodes c @ [ParentRelation t rel])
   \<and> (\<exists>n. map_of (link_nodes rel c t nodes) t = Some n \<and>
        children n = node_children nodes t @ [ChildRelation c rel] \<and> \<not> isLeaf n)"
  by (auto simp: map_of_link_nodes Let_def node_parents_def node_children_def
      TreeNode_stub_def TreeNode_init_def split: option.splits)

lemma fold_link_parents:
  "node_parents (fold (\<lambda>(c, p). link_nodes rel c p) es nodes) k =
     node_parents nodes k @
       map (\<lambda>(c, p). ParentRelation p rel) (filter (\<lambda>(c, p). c = k) es)"
  by (induction es arbitrary: nodes) (auto simp: node_parents_link)

lemma fold_link_children:
  "node_children (fold (\<lambda>(c, p). link_nodes rel c p) es nodes) k =
     node_children nodes k @
       map (\<lambda>(c, p). ChildRelation c rel) (filter (\<lambda>(c, p). p = k) es)"
  by (induction es arbitrary: nodes) (auto simp: node_children_link)

lemma step2_edges:
  "step2 g nodes = fold (\<lambda>(c, p). link_nodes ''subClassOf'' c p) (subclass_edges g) nodes"
proof -
  have "fold (subclass_edge g) ts n =
     fold (\<lambda>(c, p). link_nodes ''subClassOf'' c p)
       (map (\<lambda>(s, p, ob). (resolve_id g s, resolve_id g ob))
          (filter (\<lambda>(s, p, ob). \<not> graph_contains g (ob, RDF_type, OWL_Restriction)) ts)) n"
    for ts n
    by (induction ts arbitrary: n) (auto simp: subclass_edge_def resolve_id_def Let_def)
  then show ?thesis by (simp add: step2_def subclass_edges_def)
qed

lemma fold_link_map:
  "fold (\<lambda>target. link_nodes rel c (f target)) ts n =
     fold (\<lambda>(c, p). link_nodes rel c p) (map (\<lambda>target. (c, f target)) ts) n"
  by (induction ts arbitrary: n) auto

lemma step3_edges:
  "step3 g nodes = fold (\<lambda>(c, p). link_nodes ''partOf'' c p) (partof_edges g) nodes"
proof -
  have "fold (partof_edge g) ts n =
     fold (\<lambda>(c, p). link_nodes ''partOf'' c p)
       (concat (map (\<lambda>(s, p, r). map (\<lambda>target. (resolve_id g s, resolve_id g target))
                                  (partof_targets g r))
               (filter (\<lambda>(s, p, r). graph_contains g (r, RDF_type, OWL_Restriction)) ts))) n"
    for ts n
  proof (induction ts arbitrary: n)
    case Nil
    show ?case by simp
  next
    case (Cons t ts)
    obtain s p r where t: "t = (s, p, r)" by (cases t)
    show ?case
    proof (cases "graph_contains g (r, RDF_type, OWL_Restriction)")
      case True
      then show ?thesis
        by (simp add: t partof_edge_targets fold_link_map Cons.IH)
    next
      case False
      then have "partof_edge g t n = n" by (simp add: t partof_edge_def)
      with False show ?thesis by (simp add: t Cons.IH)
    qed
  qed
  then show ?thesis by (simp add: step3_def partof_edges_def)
qed

lemma node_parents_step1: "node_parents (step1 g []) k = []"
  using no_edges_step1 [of g] by (auto simp: no_edges_def node_parents_def split: option.splits)

lemma node_children_step1: "node_children (step1 g []) k = []"
  using no_edges_step1 [of g] by (auto simp: no_edges_def node_children_def split: option.splits)

lemma build_parents:
  "node_parents (build_nodes g) k =
     map (\<lambda>(c, p). ParentRelation p ''subClassOf'') (filter (\<lambda>(c, p). c = k) (subclass_edges g)) @
     map (\<lambda>(c, p). ParentRelation p ''partOf'') (filter (\<lambda>(c, p). c = k) (partof_edges g))"
  by (simp add: build_nodes_def node_parents_step4 step3_edges step2_edges fold_link_parents
      node_parents_step1)

lemma build_children:
  "node_children (build_nodes g) k =
     map (\<lambda>(c, p). ChildRelation c ''subClassOf'') (filter (\<lambda>(c, p). p = k) (subclass_edges g)) @
     map (\<lambda>(c, p). ChildRelation c ''partOf'') (filter (\<lambda>(c, p). p = k) (partof_edges g))"
  by (simp add: build_nodes_def node_children_step4 step3_edges step2_edges fold_link_children
      node_children_step1)

lemma leaf_ok_final: "leaf_ok (build_nodes g)"
  using leaf_ok_build [of g]
  by (auto simp: leaf_ok_def build_nodes_def map_of_step4)

lemma partof_edge_in_build:
  assumes "(c, t) \<in> set (partof_edges g)"
  shows "(\<exists>n. map_of (build_nodes g) c = Some n \<and> ParentRelation t ''partOf'' \<in> set (parents n))
       \<and> (\<exists>n. map_of (build_nodes g) t = Some n \<and>
             ChildRelation c ''partOf'' \<in> set (children n) \<and> \<not> isLeaf n)"
proof -
  from assms have "ParentRelation t ''partOf'' \<in> set (node_parents (build_nodes g) c)"
    by (force simp: build_parents)
  then have a: "\<exists>n. map_of (build_nodes g) c = Some n \<and> ParentRelation t ''partOf'' \<in> set (parents n)"
    by (cases "map_of (build_nodes g) c") (simp_all add: node_parents_def)
  from assms have "ChildRelation c ''partOf'' \<in> set (node_children (build_nodes g) t)"
    by (force simp: build_children)
  then obtain n where n: "map_of (build_nodes g) t = Some n"
    "ChildRelation c ''partOf'' \<in> set (children n)"
    by (cases "map_of (build_nodes g) t") (simp_all add: node_children_def)
  from n(2) have "children n \<noteq> []" by auto
  with leaf_ok_final [of g] n(1) have "\<not> isLeaf n" by (simp add: leaf_ok_def)
  with n a show ?thesis by blast
qed

lemma graph_objects_iff: "ob \<in> set (graph_objects g s p) \<longleftrightarrow> (s, p, ob) \<in> set g"
  by (force simp: graph_objects_def graph_triples_def pattern_ok_def)

lemma partof_targets_iff:
  "target \<in> set (partof_targets g r) \<longleftrightarrow>
     (\<exists>property_uri. (r, OWL_onProperty, property_uri) \<in> set g \<and>
                    str_of property_uri = str_of PART_OF)
     \<and> (r, OWL_someValuesFrom, target) \<in> set g"
  by (auto simp: partof_targets_def graph_objects_iff split: if_splits)

lemma partof_edges_iff:
  "(c, t) \<in> set (partof_edges g) \<longleftrightarrow>
     (\<exists>s r target. (s, RDFS_subClassOf, r) \<in> set g \<and> (r, RDF_type, OWL_Restriction) \<in> set g \<and>
        target \<in> set (partof_targets g r) \<and> c = resolve_id g s \<and> t = resolve_id g target)"
  by (auto simp: partof_edges_def graph_triples_def pattern_ok_def graph_contains_def)

lemma subclass_edges_iff:
  "(c, t) \<in> set (subclass_edges g) \<longleftrightarrow>
     (\<exists>s ob. (s, RDFS_subClassOf, ob) \<in> set g \<and> (ob, RDF_type, OWL_Restriction) \<notin> set g \<and>
        c = resolve_id g s \<and> t = resolve_id g ob)"
  by (force simp: subclass_edges_def graph_triples_def pattern_ok_def graph_contains_def)


lemma restriction_steps:
  "(graph_contains g (r, RDF_type, OWL_Restriction) \<longrightarrow>
      subclass_edge g (s, p, r) nodes = nodes
      \<and> partof_edge g (s, p, r) nodes =
          fold (\<lambda>target. link_nodes ''partOf'' (resolve_id g s) (resolve_id g target))
            (partof_targets g r) nodes
      \<and> (graph_objects g r OWL_onProperty = [PART_OF] \<and>
          graph_objects g r OWL_someValuesFrom = [target] \<longrightarrow>
            partof_edge g (s, p, r) nodes =
              link_nodes ''partOf'' (resolve_id g s) (resolve_id g target) nodes)
      \<and> (graph_objects g r OWL_someValuesFrom = [] \<longrightarrow> partof_edge g (s, p, r) nodes = nodes)
      \<and> ((\<forall>property_uri \<in> set (graph_objects g r OWL_onProperty).
             str_of property_uri \<noteq> str_of PART_OF) \<longrightarrow>
           partof_edge g (s, p, r) nodes = nodes))
   \<and> (\<not> graph_contains g (ob, RDF_type, OWL_Restriction) \<longrightarrow>
        partof_edge g (s, p, ob) nodes = nodes)
   \<and> step2 g nodes =
       fold (subclass_edge g)
         (filter (\<lambda>(s, p, ob). \<not> graph_contains g (ob, RDF_type, OWL_Restriction))
            (graph_triples g None (Some RDFS_subClassOf) None)) nodes
   \<and> step3 g nodes =
       fold (partof_edge g)
         (filter (\<lambda>(s, p, ob). graph_contains g (ob, RDF_type, OWL_Restriction))
            (graph_triples g None (Some RDFS_subClassOf) None)) nodes
   \<and> (\<exists>n. map_of (link_nodes ''partOf'' c t nodes) c = Some n \<and>
          parents n = node_parents nodes c @ [ParentRelation t ''partOf''])
   \<and> (\<exists>n. map_of (link_nodes ''partOf'' c t nodes) t = Some n \<and>
          children n = node_children nodes t @ [ChildRelation c ''partOf''] \<and> \<not> isLeaf n)"
proof -
  have a: "graph_contains g (r, RDF_type, OWL_Restriction) \<longrightarrow>
      subclass_edge g (s, p, r) nodes = nodes
      \<and> partof_edge g (s, p, r) nodes =
          fold (\<lambda>target. link_nodes ''partOf'' (resolve_id g s) (resolve_id g target))
            (partof_targets g r) nodes
      \<and> (graph_objects g r OWL_onProperty = [PART_OF] \<and>
          graph_objects g r OWL_someValuesFrom = [target] \<longrightarrow>
            partof_edge g (s, p, r) nodes =
              link_nodes ''partOf'' (resolve_id g s) (resolve_id g target) nodes)
      \<and> (graph_objects g r OWL_someValuesFrom = [] \<longrightarrow> partof_edge g (s, p, r) nodes = nodes)
      \<and> ((\<forall>property_uri \<in> set (graph_objects g r OWL_onProperty).
             str_of property_uri \<noteq> str_of PART_OF) \<longrightarrow>
           partof_edge g (s, p, r) nodes = nodes)"
  proof
    assume res: "graph_contains g (r, RDF_type, OWL_Restriction)"
    have e1: "subclass_edge g (s, p, r) nodes = nodes"
      using res by (simp add: subclass_edge_def)
    note e2 = partof_edge_targets [OF res, of s p nodes]
    have e3: "graph_objects g r OWL_onProperty = [PART_OF] \<and>
          graph_objects g r OWL_someValuesFrom = [target] \<longrightarrow>
            partof_edge g (s, p, r) nodes =
              link_nodes ''partOf'' (resolve_id g s) (resolve_id g target) nodes"
      by (simp add: e2 partof_targets_def)
    have e4: "graph_objects g r OWL_someValuesFrom = [] \<longrightarrow> partof_edge g (s, p, r) nodes = nodes"
    proof
      assume "graph_objects g r OWL_someValuesFrom = []"
      then have "partof_targets g r = []"
        by (auto simp: partof_targets_def)
      then show "partof_edge g (s, p, r) nodes = nodes" by (simp add: e2)
    qed
    have e5: "(\<forall>property_uri \<in> set (graph_objects g r OWL_onProperty).
             str_of property_uri \<noteq> str_of PART_OF) \<longrightarrow>
           partof_edge g (s, p, r) nodes = nodes"
    proof
      assume n: "\<forall>property_uri \<in> set (graph_objects g r OWL_onProperty).
             str_of property_uri \<noteq> str_of PART_OF"
      then have "partof_targets g r = []"
        by (simp add: partof_targets_def)
      then show "partof_edge g (s, p, r) nodes = nodes" by (simp add: e2)
    qed
    from e1 e2 e3 e4 e5 show "subclass_edge g (s, p, r) nodes = nodes
      \<and> partof_edge g (s, p, r) nodes =
          fold (\<lambda>target. link_nodes ''partOf'' (resolve_id g s) (resolve_id g target))
            (partof_targets g r) nodes
      \<and> (graph_objects g r OWL_onProperty = [PART_OF] \<and>
          graph_objects g r OWL_someValuesFrom = [target] \<longrightarrow>
            partof_edge g (s, p, r) nodes =
              link_nodes ''partOf'' (resolve_id g s) (resolve_id g target) nodes)
      \<and> (graph_objects g r OWL_someValuesFrom = [] \<longrightarrow> partof_edge g (s, p, r) nodes = nodes)
      \<and> ((\<forall>property_uri \<in> set (graph_objects g r OWL_onProperty).
             str_of property_uri \<noteq> str_of PART_OF) \<longrightarrow>
           partof_edge g (s, p, r) nodes = nodes)"
      by (intro conjI)
  qed
  have b: "\<not> graph_contains g (ob, RDF_type, OWL_Restriction) \<longrightarrow>
        partof_edge g (s, p, ob) nodes = nodes"
    by (simp add: partof_edge_def)
  note c = step2_skips [of g nodes]
  note d = step3_only [of g nodes]
  from link_nodes_effect [of "''partOf''" c t nodes]
  have e: "\<exists>n. map_of (link_nodes ''partOf'' c t nodes) c = Some n \<and>
          parents n = node_parents nodes c @ [ParentRelation t ''partOf'']"
    and f: "\<exists>n. map_of (link_nodes ''partOf'' c t nodes) t = Some n \<and>
          children n = node_children nodes t @ [ChildRelation c ''partOf''] \<and> \<not> isLeaf n"
    by blast+
  show ?thesis
    by (intro conjI) (fact a b c d e f)+
qed

text \<open>
  C5. During the build a subclass-of triple whose object is typed as a restriction
  makes no subClassOf edge: step 2 leaves the nodes as they are on it, and in the
  built graph the subClassOf edges of a node are exactly those of the triples whose
  object is not so typed. Step 3 is the loop over the restriction triples alone; on
  such a triple it links the subject to every target of the restriction with a partOf
  edge, a target being the object of a some-values-from triple while an on-property
  triple of the restriction reads as part-of (the code compares the text of the
  property; for a URI reference that is equality with the part-of property). In the
  built graph the partOf edges of a node are exactly those links, in order: for a
  triple whose restriction has the part-of on-property triple and a some-values-from
  triple, the node of the subject exists and holds the parent edge, the node of the
  target exists (a stub if it was never declared), holds the child edge and has
  \<open>isLeaf\<close> false; a restriction without a some-values-from triple, or with no
  on-property triple that matches, gives no edge. The functions are total: nothing is
  raised.
\<close>

theorem restriction_partof:
  "(graph_contains g (r, RDF_type, OWL_Restriction) \<longrightarrow>
      subclass_edge g (s, p, r) nodes = nodes
      \<and> partof_edge g (s, p, r) nodes =
          fold (\<lambda>target. link_nodes ''partOf'' (resolve_id g s) (resolve_id g target))
            (partof_targets g r) nodes
      \<and> (graph_objects g r OWL_onProperty = [PART_OF] \<and>
          graph_objects g r OWL_someValuesFrom = [target] \<longrightarrow>
            partof_edge g (s, p, r) nodes =
              link_nodes ''partOf'' (resolve_id g s) (resolve_id g target) nodes)
      \<and> (graph_objects g r OWL_someValuesFrom = [] \<longrightarrow> partof_edge g (s, p, r) nodes = nodes)
      \<and> ((\<forall>property_uri \<in> set (graph_objects g r OWL_onProperty).
             str_of property_uri \<noteq> str_of PART_OF) \<longrightarrow>
           partof_edge g (s, p, r) nodes = nodes))
   \<and> (\<not> graph_contains g (ob, RDF_type, OWL_Restriction) \<longrightarrow>
        partof_edge g (s, p, ob) nodes = nodes)
   \<and> step2 g nodes =
       fold (subclass_edge g)
         (filter (\<lambda>(s, p, ob). \<not> graph_contains g (ob, RDF_type, OWL_Restriction))
            (graph_triples g None (Some RDFS_subClassOf) None)) nodes
   \<and> step3 g nodes =
       fold (partof_edge g)
         (filter (\<lambda>(s, p, ob). graph_contains g (ob, RDF_type, OWL_Restriction))
            (graph_triples g None (Some RDFS_subClassOf) None)) nodes
   \<and> (\<exists>n. map_of (link_nodes ''partOf'' c t nodes) c = Some n \<and>
          parents n = node_parents nodes c @ [ParentRelation t ''partOf''])
   \<and> (\<exists>n. map_of (link_nodes ''partOf'' c t nodes) t = Some n \<and>
          children n = node_children nodes t @ [ChildRelation c ''partOf''] \<and> \<not> isLeaf n)
   \<and> node_parents (build_nodes g) k =
       map (\<lambda>(c, p). ParentRelation p ''subClassOf'') (filter (\<lambda>(c, p). c = k) (subclass_edges g)) @
       map (\<lambda>(c, p). ParentRelation p ''partOf'') (filter (\<lambda>(c, p). c = k) (partof_edges g))
   \<and> node_children (build_nodes g) k =
       map (\<lambda>(c, p). ChildRelation c ''subClassOf'') (filter (\<lambda>(c, p). p = k) (subclass_edges g)) @
       map (\<lambda>(c, p). ChildRelation c ''partOf'') (filter (\<lambda>(c, p). p = k) (partof_edges g))
   \<and> ((c, t) \<in> set (subclass_edges g) \<longleftrightarrow>
        (\<exists>s ob. (s, RDFS_subClassOf, ob) \<in> set g \<and> (ob, RDF_type, OWL_Restriction) \<notin> set g \<and>
           c = resolve_id g s \<and> t = resolve_id g ob))
   \<and> ((c, t) \<in> set (partof_edges g) \<longleftrightarrow>
        (\<exists>s r property_uri target.
           (s, RDFS_subClassOf, r) \<in> set g \<and> (r, RDF_type, OWL_Restriction) \<in> set g \<and>
           (r, OWL_onProperty, property_uri) \<in> set g \<and> str_of property_uri = str_of PART_OF \<and>
           (r, OWL_someValuesFrom, target) \<in> set g \<and>
           c = resolve_id g s \<and> t = resolve_id g target))
   \<and> ((s, RDFS_subClassOf, r) \<in> set g \<and> (r, RDF_type, OWL_Restriction) \<in> set g \<and>
       (r, OWL_onProperty, PART_OF) \<in> set g \<and> (r, OWL_someValuesFrom, target) \<in> set g \<longrightarrow>
        (\<exists>n. map_of (build_nodes g) (resolve_id g s) = Some n \<and>
             ParentRelation (resolve_id g target) ''partOf'' \<in> set (parents n))
        \<and> (\<exists>n. map_of (build_nodes g) (resolve_id g target) = Some n \<and>
             ChildRelation (resolve_id g s) ''partOf'' \<in> set (children n) \<and> \<not> isLeaf n))
   \<and> (str_of (URIRef u) = str_of PART_OF \<longleftrightarrow> URIRef u = PART_OF)"
proof -
  note old = restriction_steps [of g r s p nodes target ob c t]
  note p1 = build_parents [of g k]
  note p2 = build_children [of g k]
  note p3 = subclass_edges_iff [of c t g]
  have p4: "(c, t) \<in> set (partof_edges g) \<longleftrightarrow>
        (\<exists>s r property_uri target.
           (s, RDFS_subClassOf, r) \<in> set g \<and> (r, RDF_type, OWL_Restriction) \<in> set g \<and>
           (r, OWL_onProperty, property_uri) \<in> set g \<and> str_of property_uri = str_of PART_OF \<and>
           (r, OWL_someValuesFrom, target) \<in> set g \<and>
           c = resolve_id g s \<and> t = resolve_id g target)"
    unfolding partof_edges_iff partof_targets_iff by blast
  have p5: "(s, RDFS_subClassOf, r) \<in> set g \<and> (r, RDF_type, OWL_Restriction) \<in> set g \<and>
       (r, OWL_onProperty, PART_OF) \<in> set g \<and> (r, OWL_someValuesFrom, target) \<in> set g \<longrightarrow>
        (\<exists>n. map_of (build_nodes g) (resolve_id g s) = Some n \<and>
             ParentRelation (resolve_id g target) ''partOf'' \<in> set (parents n))
        \<and> (\<exists>n. map_of (build_nodes g) (resolve_id g target) = Some n \<and>
             ChildRelation (resolve_id g s) ''partOf'' \<in> set (children n) \<and> \<not> isLeaf n)"
  proof
    assume a: "(s, RDFS_subClassOf, r) \<in> set g \<and> (r, RDF_type, OWL_Restriction) \<in> set g \<and>
       (r, OWL_onProperty, PART_OF) \<in> set g \<and> (r, OWL_someValuesFrom, target) \<in> set g"
    then have "target \<in> set (partof_targets g r)"
      unfolding partof_targets_iff by blast
    with a have "(resolve_id g s, resolve_id g target) \<in> set (partof_edges g)"
      unfolding partof_edges_iff by blast
    then show "(\<exists>n. map_of (build_nodes g) (resolve_id g s) = Some n \<and>
             ParentRelation (resolve_id g target) ''partOf'' \<in> set (parents n))
        \<and> (\<exists>n. map_of (build_nodes g) (resolve_id g target) = Some n \<and>
             ChildRelation (resolve_id g s) ''partOf'' \<in> set (children n) \<and> \<not> isLeaf n)"
      by (rule partof_edge_in_build)
  qed
  have p6: "str_of (URIRef u) = str_of PART_OF \<longleftrightarrow> URIRef u = PART_OF"
    by (simp add: PART_OF_def OBO_def)
  from old p1 p2 p3 p4 p5 p6 show ?thesis
    apply (elim conjE)
    apply (intro conjI)
    apply assumption+
    done
qed

theorem restriction_partof_witness:
  "graph_contains example_graph (BNode ''r1'', RDF_type, OWL_Restriction)
   \<and> graph_objects example_graph (BNode ''r1'') OWL_onProperty = [PART_OF]
   \<and> graph_objects example_graph (BNode ''r1'') OWL_someValuesFrom = [OBO ''MS_4'']
   \<and> subclass_edge example_graph (OBO ''MS_3'', RDFS_subClassOf, BNode ''r1'') [] = []
   \<and> partof_edge example_graph (OBO ''MS_3'', RDFS_subClassOf, BNode ''r1'') [] =
       link_nodes ''partOf'' ''MS_3'' ''MS_4'' []
   \<and> graph_contains lacking_graph (BNode ''r1'', RDF_type, OWL_Restriction)
   \<and> graph_objects lacking_graph (BNode ''r1'') OWL_someValuesFrom = []
   \<and> partof_edge lacking_graph (OBO ''MS_3'', RDFS_subClassOf, BNode ''r1'') [] = []
   \<and> graph_contains other_property_graph (BNode ''r1'', RDF_type, OWL_Restriction)
   \<and> list_all (\<lambda>property_uri. str_of property_uri \<noteq> str_of PART_OF)
       (graph_objects other_property_graph (BNode ''r1'') OWL_onProperty)
   \<and> partof_edge other_property_graph (OBO ''MS_3'', RDFS_subClassOf, BNode ''r1'') [] = []
   \<and> \<not> graph_contains example_graph (OBO ''MS_1'', RDF_type, OWL_Restriction)
   \<and> partof_edge example_graph (OBO ''MS_2'', RDFS_subClassOf, OBO ''MS_1'') [] = []
   \<and> (OBO ''MS_3'', RDFS_subClassOf, BNode ''r1'') \<in> set example_graph
   \<and> (BNode ''r1'', RDF_type, OWL_Restriction) \<in> set example_graph
   \<and> (BNode ''r1'', OWL_onProperty, PART_OF) \<in> set example_graph
   \<and> (BNode ''r1'', OWL_someValuesFrom, OBO ''MS_4'') \<in> set example_graph
   \<and> (\<exists>n. map_of (build_nodes example_graph) ''MS_3'' = Some n \<and>
          ParentRelation ''MS_4'' ''partOf'' \<in> set (parents n))
   \<and> (\<exists>n. map_of (build_nodes example_graph) ''MS_4'' = Some n \<and>
          ChildRelation ''MS_3'' ''partOf'' \<in> set (children n) \<and> \<not> isLeaf n)
   \<and> node_parents (build_nodes example_graph) ''MS_3'' = [ParentRelation ''MS_4'' ''partOf'']
   \<and> node_parents (build_nodes lacking_graph) ''MS_3'' = []
   \<and> node_parents (build_nodes other_property_graph) ''MS_3'' = []"
proof -
  have h1: "graph_contains example_graph (BNode ''r1'', RDF_type, OWL_Restriction)"
    by code_simp
  have h2: "graph_objects example_graph (BNode ''r1'') OWL_onProperty = [PART_OF]"
    by code_simp
  have h3: "graph_objects example_graph (BNode ''r1'') OWL_someValuesFrom = [OBO ''MS_4'']"
    by code_simp
  have i: "resolve_id example_graph (OBO ''MS_3'') = ''MS_3''"
    "resolve_id example_graph (OBO ''MS_4'') = ''MS_4''"
    by code_simp+
  have h4: "graph_contains lacking_graph (BNode ''r1'', RDF_type, OWL_Restriction)"
    by code_simp
  have h5: "graph_objects lacking_graph (BNode ''r1'') OWL_someValuesFrom = []"
    by code_simp
  have h6: "graph_contains other_property_graph (BNode ''r1'', RDF_type, OWL_Restriction)"
    by code_simp
  have h7: "list_all (\<lambda>property_uri. str_of property_uri \<noteq> str_of PART_OF)
       (graph_objects other_property_graph (BNode ''r1'') OWL_onProperty)"
    by code_simp
  have h8: "\<not> graph_contains example_graph (OBO ''MS_1'', RDF_type, OWL_Restriction)"
    by code_simp
  note r1 = restriction_partof [of example_graph "BNode ''r1''" "OBO ''MS_3''" RDFS_subClassOf "[]"
      "OBO ''MS_4''" "OBO ''MS_1''" "[]" "[]" "''MS_3''" "[]"]
  from r1 h1 have a1: "subclass_edge example_graph (OBO ''MS_3'', RDFS_subClassOf, BNode ''r1'') [] = []"
    by blast
  from r1 h1 h2 h3 have "partof_edge example_graph (OBO ''MS_3'', RDFS_subClassOf, BNode ''r1'') [] =
      link_nodes ''partOf'' (resolve_id example_graph (OBO ''MS_3''))
        (resolve_id example_graph (OBO ''MS_4'')) []"
    by blast
  then have a2: "partof_edge example_graph (OBO ''MS_3'', RDFS_subClassOf, BNode ''r1'') [] =
       link_nodes ''partOf'' ''MS_3'' ''MS_4'' []"
    by (simp only: i)
  note r2 = restriction_partof [of lacking_graph "BNode ''r1''" "OBO ''MS_3''" RDFS_subClassOf "[]"
      "OBO ''MS_4''" "OBO ''MS_1''" "[]" "[]" "''MS_3''" "[]"]
  from r2 h4 h5
  have b: "partof_edge lacking_graph (OBO ''MS_3'', RDFS_subClassOf, BNode ''r1'') [] = []"
    by blast
  have h7': "\<forall>property_uri \<in> set (graph_objects other_property_graph (BNode ''r1'') OWL_onProperty).
      str_of property_uri \<noteq> str_of PART_OF"
    using h7 by (simp add: list_all_iff)
  note r3 = restriction_partof [of other_property_graph "BNode ''r1''" "OBO ''MS_3''"
      RDFS_subClassOf "[]" "OBO ''MS_4''" "OBO ''MS_1''" "[]" "[]" "''MS_3''" "[]"]
  from r3 h6 h7'
  have c: "partof_edge other_property_graph (OBO ''MS_3'', RDFS_subClassOf, BNode ''r1'') [] = []"
    by blast
  note r4 = restriction_partof [of example_graph "BNode ''r1''" "OBO ''MS_2''" RDFS_subClassOf "[]"
      "OBO ''MS_4''" "OBO ''MS_1''" "[]" "[]" "''MS_3''" "[]"]
  from r4 h8
  have d: "partof_edge example_graph (OBO ''MS_2'', RDFS_subClassOf, OBO ''MS_1'') [] = []"
    by blast
  have m1: "(OBO ''MS_3'', RDFS_subClassOf, BNode ''r1'') \<in> set example_graph"
    and m2: "(BNode ''r1'', RDF_type, OWL_Restriction) \<in> set example_graph"
    and m3: "(BNode ''r1'', OWL_onProperty, PART_OF) \<in> set example_graph"
    and m4: "(BNode ''r1'', OWL_someValuesFrom, OBO ''MS_4'') \<in> set example_graph"
    by code_simp+
  from r1 m1 m2 m3 m4 have
    "(\<exists>n. map_of (build_nodes example_graph) (resolve_id example_graph (OBO ''MS_3'')) = Some n \<and>
         ParentRelation (resolve_id example_graph (OBO ''MS_4'')) ''partOf'' \<in> set (parents n))
     \<and> (\<exists>n. map_of (build_nodes example_graph) (resolve_id example_graph (OBO ''MS_4'')) = Some n \<and>
         ChildRelation (resolve_id example_graph (OBO ''MS_3'')) ''partOf'' \<in> set (children n) \<and>
         \<not> isLeaf n)"
    by blast
  then have e1: "\<exists>n. map_of (build_nodes example_graph) ''MS_3'' = Some n \<and>
          ParentRelation ''MS_4'' ''partOf'' \<in> set (parents n)"
    and e2: "\<exists>n. map_of (build_nodes example_graph) ''MS_4'' = Some n \<and>
          ChildRelation ''MS_3'' ''partOf'' \<in> set (children n) \<and> \<not> isLeaf n"
    by (simp_all only: i)
  have l1: "subclass_edges example_graph = [(''MS:2'', ''MS:1'')]"
    "partof_edges example_graph = [(''MS_3'', ''MS_4'')]"
    "subclass_edges lacking_graph = []" "partof_edges lacking_graph = []"
    "subclass_edges other_property_graph = []" "partof_edges other_property_graph = []"
    by code_simp+
  from r1 have "node_parents (build_nodes example_graph) ''MS_3'' =
       map (\<lambda>(c, p). ParentRelation p ''subClassOf'')
         (filter (\<lambda>(c, p). c = ''MS_3'') (subclass_edges example_graph)) @
       map (\<lambda>(c, p). ParentRelation p ''partOf'')
         (filter (\<lambda>(c, p). c = ''MS_3'') (partof_edges example_graph))"
    by blast
  then have f1: "node_parents (build_nodes example_graph) ''MS_3'' =
      [ParentRelation ''MS_4'' ''partOf'']"
    by (simp add: l1)
  from r2 have "node_parents (build_nodes lacking_graph) ''MS_3'' =
       map (\<lambda>(c, p). ParentRelation p ''subClassOf'')
         (filter (\<lambda>(c, p). c = ''MS_3'') (subclass_edges lacking_graph)) @
       map (\<lambda>(c, p). ParentRelation p ''partOf'')
         (filter (\<lambda>(c, p). c = ''MS_3'') (partof_edges lacking_graph))"
    by blast
  then have f2: "node_parents (build_nodes lacking_graph) ''MS_3'' = []"
    by (simp add: l1)
  from r3 have "node_parents (build_nodes other_property_graph) ''MS_3'' =
       map (\<lambda>(c, p). ParentRelation p ''subClassOf'')
         (filter (\<lambda>(c, p). c = ''MS_3'') (subclass_edges other_property_graph)) @
       map (\<lambda>(c, p). ParentRelation p ''partOf'')
         (filter (\<lambda>(c, p). c = ''MS_3'') (partof_edges other_property_graph))"
    by blast
  then have f3: "node_parents (build_nodes other_property_graph) ''MS_3'' = []"
    by (simp add: l1)
  show ?thesis
    by (intro conjI) (fact h1 h2 h3 h4 h5 h6 h7 h8 a1 a2 b c d m1 m2 m3 m4 e1 e2 f1 f2 f3)+
qed


subsection \<open>Search\<close>

lemma fold_append_if:
  "fold (\<lambda>x r. if P x then r @ [x] else r) xs acc = acc @ filter P xs"
  by (induction xs arbitrary: acc) simp_all

lemma search_step_if:
  "search_step lower ql term results =
     (if field_hit lower ql (label term) \<or> field_hit lower ql (label_zh term) \<or>
         field_hit lower ql (definition_en term) \<or> field_hit lower ql (definition_zh term)
      then results @ [term] else results)"
  by (simp add: search_step_def)

lemma field_hit_iff:
  "field_hit lower ql f \<longleftrightarrow> (\<exists>t. f = Some t \<and> t \<noteq> [] \<and> sublist ql (lower t))"
  by (simp add: field_hit_def truthy_def str_in_def split: option.splits)

lemma search_data_filter:
  "search_data lower q data =
     filter (\<lambda>n. field_hit lower (lower q) (label n) \<or> field_hit lower (lower q) (label_zh n) \<or>
                 field_hit lower (lower q) (definition_en n) \<or>
                 field_hit lower (lower q) (definition_zh n))
       (dict_values data)"
  unfolding search_data_def Let_def search_step_if [abs_def]
  by (simp add: fold_append_if)

text \<open>
  C1. The claim: \<open>search(q)\<close> returns, in snapshot order, exactly the nodes one of whose
  four text fields, case-folded, contains \<open>q\<close>, case-folded, and \<open>search("")\<close> returns all
  nodes, stub nodes included. Each test of the code is
  \<open>field and query_lower in field.lower()\<close>, so a field that is absent or empty never
  matches, whatever the query. Amended: \<open>search(q)\<close> returns, in snapshot order, exactly
  the nodes with a text field that is present, not empty and, case-folded, contains
  \<open>q\<close>, case-folded; \<open>search("")\<close> returns exactly the nodes with a text field that is
  present and not empty. The folding is the one of the code, \<open>str.lower\<close>, here the
  parameter \<open>lower\<close>: the theorem holds whatever that function does to a string, and its
  second part needs only that it lowers the empty string to the empty string. The four
  tests of one node append it at most once, so the order in which they are tried does
  not show in the result.
\<close>

theorem search_exact:
  "search_data lower q data =
     filter (\<lambda>n. \<exists>t. t \<noteq> [] \<and>
                (label n = Some t \<or> label_zh n = Some t \<or>
                 definition_en n = Some t \<or> definition_zh n = Some t) \<and>
                sublist (lower q) (lower t))
       (dict_values data)
   \<and> (lower [] = [] \<longrightarrow>
        search_data lower [] data =
          filter (\<lambda>n. \<exists>t. t \<noteq> [] \<and>
                     (label n = Some t \<or> label_zh n = Some t \<or>
                      definition_en n = Some t \<or> definition_zh n = Some t))
            (dict_values data))
   \<and> search_terms lower src now self q =
       (case get_parsed_data src now self of
          (Inl e, self') \<Rightarrow> (Inl e, self')
        | (Inr d, self') \<Rightarrow> (Inr (search_data lower q d), self'))"
proof -
  have a: "search_data lower q' data =
     filter (\<lambda>n. \<exists>t. t \<noteq> [] \<and>
                (label n = Some t \<or> label_zh n = Some t \<or>
                 definition_en n = Some t \<or> definition_zh n = Some t) \<and>
                sublist (lower q') (lower t))
       (dict_values data)" for q'
    unfolding search_data_filter field_hit_iff
    by (rule filter_cong) auto
  have b: "lower [] = [] \<longrightarrow>
        search_data lower [] data =
          filter (\<lambda>n. \<exists>t. t \<noteq> [] \<and>
                     (label n = Some t \<or> label_zh n = Some t \<or>
                      definition_en n = Some t \<or> definition_zh n = Some t))
            (dict_values data)"
  proof
    assume "lower [] = []"
    with a [of "[]"] show "search_data lower [] data =
          filter (\<lambda>n. \<exists>t. t \<noteq> [] \<and>
                     (label n = Some t \<or> label_zh n = Some t \<or>
                      definition_en n = Some t \<or> definition_zh n = Some t))
            (dict_values data)" by simp
  qed
  have c: "search_terms lower src now self q =
       (case get_parsed_data src now self of
          (Inl e, self') \<Rightarrow> (Inl e, self')
        | (Inr d, self') \<Rightarrow> (Inr (search_data lower q d), self'))"
    by (simp add: search_terms_def)
  show ?thesis
    by (intro conjI) (fact a b c)+
qed

theorem search_exact_witness:
  "ascii_lower [] = []
   \<and> search_data ascii_lower [] (build_nodes example_graph) =
       filter (\<lambda>n. \<exists>t. t \<noteq> [] \<and>
                  (label n = Some t \<or> label_zh n = Some t \<or>
                   definition_en n = Some t \<or> definition_zh n = Some t))
         (dict_values (build_nodes example_graph))
   \<and> map id_s (search_data ascii_lower ''INSTR'' (build_nodes example_graph)) = [''MS:1'']"
proof -
  have h: "ascii_lower [] = []" by (simp add: ascii_lower_def)
  note t = search_exact [of ascii_lower "[]" "build_nodes example_graph" example_source 0 served]
  from t h have a: "search_data ascii_lower [] (build_nodes example_graph) =
       filter (\<lambda>n. \<exists>t. t \<noteq> [] \<and>
                  (label n = Some t \<or> label_zh n = Some t \<or>
                   definition_en n = Some t \<or> definition_zh n = Some t))
         (dict_values (build_nodes example_graph))"
    by blast
  have b: "map id_s (search_data ascii_lower ''INSTR'' (build_nodes example_graph)) = [''MS:1'']"
    by code_simp
  show ?thesis
    by (intro conjI) (fact h a b)+
qed

text \<open>
  The claim as stated fails on the example document: of its four nodes, the empty
  query returns the one that has a label; the class without text and the two stubs
  are left out. (No text of the document has a cased character outside ASCII, so
  \<open>str.lower\<close> is \<open>ascii_lower\<close> on it; the empty query matches or fails whatever the
  folding.)
\<close>

theorem search_empty_query_counterexample:
  "map id_s (search_data ascii_lower [] (build_nodes example_graph)) = [''MS:1'']
   \<and> map id_s (dict_values (build_nodes example_graph)) = [''MS:1'', ''MS:2'', ''MS_3'', ''MS_4'']
   \<and> search_data ascii_lower [] (build_nodes example_graph) \<noteq>
       dict_values (build_nodes example_graph)"
proof -
  have a: "map id_s (search_data ascii_lower [] (build_nodes example_graph)) = [''MS:1'']"
    by code_simp
  have b: "map id_s (dict_values (build_nodes example_graph)) =
      [''MS:1'', ''MS:2'', ''MS_3'', ''MS_4'']"
    by code_simp
  from a b have "map id_s (search_data ascii_lower [] (build_nodes example_graph)) \<noteq>
      map id_s (dict_values (build_nodes example_graph))" by simp
  then have "search_data ascii_lower [] (build_nodes example_graph) \<noteq>
      dict_values (build_nodes example_graph)"
    by auto
  with a b show ?thesis by simp
qed

subsection \<open>The cache\<close>

lemma get_parsed_data_stale:
  "cache_stale now self \<Longrightarrow>
   get_parsed_data src now self =
     (case parse_ontology src (owl_file_path self) of
        Inl e \<Rightarrow> (Inl e, self)
      | Inr d \<Rightarrow> (Inr d, self\<lparr>cache := Some d, cache_timestamp := Some now\<rparr>))"
  by (simp add: get_parsed_data_def)

lemma get_parsed_data_fresh:
  "\<not> cache_stale now self \<Longrightarrow>
   \<exists>d. cache self = Some d \<and> get_parsed_data src now self = (Inr d, self)"
  by (auto simp: get_parsed_data_def cache_stale_def split: option.splits)

lemma cache_stale_iff:
  "cache_stale now self \<longleftrightarrow>
     (cache self = None \<or> cache_timestamp self = None \<or>
      (\<exists>ts. cache_timestamp self = Some ts \<and> now - ts > 3600))"
  by (auto simp: cache_stale_def split: option.splits)

lemma ops_state:
  "snd (get_all_terms src now self) = snd (get_parsed_data src now self)"
  "snd (get_term_by_id src now self i) = snd (get_parsed_data src now self)"
  "snd (search_terms lower src now self q) = snd (get_parsed_data src now self)"
  "snd (export_to_json src env now self f) = snd (get_parsed_data src now self)"
  "snd (get_statistics src now self) = snd (get_parsed_data src now self)"
  by (auto simp: get_all_terms_def get_term_by_id_def search_terms_def export_to_json_def
      get_statistics_def split: prod.splits sum.splits)

lemma served_eq:
  "served = \<lparr>owl_file_path = ''psi-ms-zh.owl'', cache = Some (build_nodes example_graph),
             cache_timestamp = Some 0\<rparr>"
  by (simp add: served_def get_all_terms_def get_parsed_data_def cache_stale_def
      OntologyService_init_def parse_ontology_def example_source_def)

text \<open>
  C3. The claim: when a rebuild fails because the document cannot be loaded or parsed,
  (a) with a previous snapshot the operation is still answered from it, (b) with none
  the failure reaches the caller, and in both cases the cached state is unchanged.
  The service has no handler around the parser: the exception leaves
  \<open>_get_parsed_data\<close> and the operation, with or without a previous snapshot. Amended:
  when a rebuild fails because the document cannot be loaded or parsed, the failure
  reaches the caller of the operation that triggered it, whether or not a previous
  snapshot exists, and the cached snapshot and its timestamp are unchanged.
\<close>

theorem rebuild_failure_propagates:
  assumes "cache_stale now self" and "src (owl_file_path self) = None"
  shows "get_parsed_data src now self = (Inl SourceUnavailable, self)
       \<and> get_all_terms src now self = (Inl SourceUnavailable, self)
       \<and> get_term_by_id src now self term_id = (Inl SourceUnavailable, self)
       \<and> search_terms lower src now self query = (Inl SourceUnavailable, self)
       \<and> export_to_json src env now self output_file = (Inl SourceUnavailable, self)
       \<and> get_statistics src now self = (Inl SourceUnavailable, self)"
proof -
  have "get_parsed_data src now self = (Inl SourceUnavailable, self)"
    using assms by (simp add: get_parsed_data_def parse_ontology_def)
  then show ?thesis
    by (simp add: get_all_terms_def get_term_by_id_def search_terms_def export_to_json_def
        get_statistics_def)
qed

theorem rebuild_failure_propagates_witness:
  "cache_stale 4000 served \<and> broken_source (owl_file_path served) = None
   \<and> get_all_terms broken_source 4000 served = (Inl SourceUnavailable, served)
   \<and> search_terms ascii_lower broken_source 4000 served ''ms'' = (Inl SourceUnavailable, served)
   \<and> cache_stale 0 (OntologyService_init ''psi-ms-zh.owl'')
   \<and> get_all_terms broken_source 0 (OntologyService_init ''psi-ms-zh.owl'') =
       (Inl SourceUnavailable, OntologyService_init ''psi-ms-zh.owl'')"
proof -
  have h1: "cache_stale 4000 served" by (simp add: served_eq cache_stale_def)
  have h2: "broken_source (owl_file_path served) = None" by (simp add: broken_source_def)
  have h3: "cache_stale 0 (OntologyService_init ''psi-ms-zh.owl'')"
    by (simp add: OntologyService_init_def cache_stale_def)
  have h4: "broken_source (owl_file_path (OntologyService_init ''psi-ms-zh.owl'')) = None"
    by (simp add: broken_source_def)
  from rebuild_failure_propagates [of 4000 served broken_source, OF h1 h2]
    rebuild_failure_propagates [of 0 "OntologyService_init ''psi-ms-zh.owl''" broken_source,
      OF h3 h4] h1 h2 h3
  show ?thesis by simp
qed

text \<open>
  Part (a) of the claim fails: a service that holds a snapshot built at time 0 and is
  asked for all terms at time 4000, while the document cannot be read, returns the
  failure and not the nodes of its snapshot.
\<close>

theorem rebuild_failure_counterexample:
  "cache served = Some (build_nodes example_graph)
   \<and> get_all_terms broken_source 4000 served = (Inl SourceUnavailable, served)
   \<and> fst (get_all_terms broken_source 4000 served) \<noteq>
       Inr (dict_values (build_nodes example_graph))"
  by (simp add: served_eq get_all_terms_def get_parsed_data_def cache_stale_def
      parse_ontology_def broken_source_def)

text \<open>
  C4. The claim: an operation rebuilds if and only if there is no snapshot or more than
  \<open>ttl\<close> has passed since the last build, and otherwise answers from the snapshot
  unchanged; so two operations within \<open>ttl\<close> of each other, with no \<open>clearCache\<close> between
  them, see the same snapshot; and after \<open>clearCache\<close> the next access rebuilds. The
  age that is tested is the time since the last build (with \<open>ttl\<close> = 3600 seconds), not
  the time between two operations: the first of two operations may fall before and the
  second after the limit. Amended: the middle part holds for two operations that are
  both issued within \<open>ttl\<close> of the last build. The theorem: the test; what
  \<open>_get_parsed_data\<close> does when it holds and when it fails; that every operation changes
  the service exactly as \<open>_get_parsed_data\<close> does; that two calls at times when the test
  fails return the same snapshot and leave the service as it is; and that the test
  holds after \<open>clear_cache\<close>.
\<close>

theorem cache_policy:
  "(cache_stale now self \<longleftrightarrow>
      (cache self = None \<or> cache_timestamp self = None \<or>
       (\<exists>ts. cache_timestamp self = Some ts \<and> now - ts > 3600)))
   \<and> (cache_stale now self \<longrightarrow>
        get_parsed_data src now self =
          (case parse_ontology src (owl_file_path self) of
             Inl e \<Rightarrow> (Inl e, self)
           | Inr d \<Rightarrow> (Inr d, self\<lparr>cache := Some d, cache_timestamp := Some now\<rparr>)))
   \<and> (\<not> cache_stale now self \<longrightarrow>
        (\<exists>d. cache self = Some d \<and> get_parsed_data src now self = (Inr d, self)))
   \<and> snd (get_all_terms src now self) = snd (get_parsed_data src now self)
   \<and> snd (get_term_by_id src now self term_id) = snd (get_parsed_data src now self)
   \<and> snd (search_terms lower src now self query) = snd (get_parsed_data src now self)
   \<and> snd (export_to_json src env now self output_file) = snd (get_parsed_data src now self)
   \<and> snd (get_statistics src now self) = snd (get_parsed_data src now self)
   \<and> (\<not> cache_stale now self \<and> \<not> cache_stale now' self \<longrightarrow>
        snd (get_parsed_data src now self) = self
        \<and> fst (get_parsed_data src' now' (snd (get_parsed_data src now self))) =
            fst (get_parsed_data src now self)
        \<and> snd (get_parsed_data src' now' (snd (get_parsed_data src now self))) = self)
   \<and> cache_stale now (clear_cache self)"
proof -
  have p1: "cache_stale now self \<longleftrightarrow>
      (cache self = None \<or> cache_timestamp self = None \<or>
       (\<exists>ts. cache_timestamp self = Some ts \<and> now - ts > 3600))"
    by (rule cache_stale_iff)
  have p2: "cache_stale now self \<longrightarrow>
        get_parsed_data src now self =
          (case parse_ontology src (owl_file_path self) of
             Inl e \<Rightarrow> (Inl e, self)
           | Inr d \<Rightarrow> (Inr d, self\<lparr>cache := Some d, cache_timestamp := Some now\<rparr>))"
    by (simp add: get_parsed_data_stale)
  have p3: "\<not> cache_stale now self \<longrightarrow>
        (\<exists>d. cache self = Some d \<and> get_parsed_data src now self = (Inr d, self))"
    by (simp add: get_parsed_data_fresh)
  have p4: "\<not> cache_stale now self \<and> \<not> cache_stale now' self \<longrightarrow>
        snd (get_parsed_data src now self) = self
        \<and> fst (get_parsed_data src' now' (snd (get_parsed_data src now self))) =
            fst (get_parsed_data src now self)
        \<and> snd (get_parsed_data src' now' (snd (get_parsed_data src now self))) = self"
  proof
    assume a: "\<not> cache_stale now self \<and> \<not> cache_stale now' self"
    from a get_parsed_data_fresh [of now self src] obtain d where
      d: "cache self = Some d" "get_parsed_data src now self = (Inr d, self)" by auto
    from a get_parsed_data_fresh [of now' self src'] d(1) have
      "get_parsed_data src' now' self = (Inr d, self)" by auto
    with d show "snd (get_parsed_data src now self) = self
        \<and> fst (get_parsed_data src' now' (snd (get_parsed_data src now self))) =
            fst (get_parsed_data src now self)
        \<and> snd (get_parsed_data src' now' (snd (get_parsed_data src now self))) = self"
      by simp
  qed
  have p5: "cache_stale now (clear_cache self)"
    by (simp add: cache_stale_def clear_cache_def)
  show ?thesis
    by (intro conjI) (fact p1 p2 p3 p4 p5 ops_state)+
qed

theorem cache_policy_witness:
  "cache_stale 4000 served
   \<and> get_parsed_data edited_source 4000 served =
       (Inr (build_nodes edited_graph),
        served\<lparr>cache := Some (build_nodes edited_graph), cache_timestamp := Some 4000\<rparr>)
   \<and> \<not> cache_stale 100 served
   \<and> \<not> cache_stale 3000 served
   \<and> fst (get_parsed_data edited_source 3000 (snd (get_parsed_data example_source 100 served))) =
       fst (get_parsed_data example_source 100 served)
   \<and> cache_stale 100 (clear_cache served)"
proof -
  have h1: "cache_stale 4000 served" by (simp add: served_eq cache_stale_def)
  have h2: "\<not> cache_stale 100 served" by (simp add: served_eq cache_stale_def)
  have h3: "\<not> cache_stale 3000 served" by (simp add: served_eq cache_stale_def)
  have pe: "parse_ontology edited_source (owl_file_path served) = Inr (build_nodes edited_graph)"
    by (simp add: parse_ontology_def edited_source_def)
  note c1 = cache_policy [of 4000 served edited_source "[]" ascii_lower "[]" example_env None 4000
      edited_source]
  from c1 h1 have "get_parsed_data edited_source 4000 served =
          (case parse_ontology edited_source (owl_file_path served) of
             Inl e \<Rightarrow> (Inl e, served)
           | Inr d \<Rightarrow> (Inr d, served\<lparr>cache := Some d, cache_timestamp := Some 4000\<rparr>))"
    by blast
  then have a: "get_parsed_data edited_source 4000 served =
       (Inr (build_nodes edited_graph),
        served\<lparr>cache := Some (build_nodes edited_graph), cache_timestamp := Some 4000\<rparr>)"
    by (simp only: pe sum.case)
  note c2 = cache_policy [of 100 served example_source "[]" ascii_lower "[]" example_env None 3000
      edited_source]
  from c2 h2 h3 have b:
    "fst (get_parsed_data edited_source 3000 (snd (get_parsed_data example_source 100 served))) =
       fst (get_parsed_data example_source 100 served)"
    by blast
  from c2 have c: "cache_stale 100 (clear_cache served)"
    by blast
  show ?thesis
    by (intro conjI) (fact h1 h2 h3 a b c)+
qed

text \<open>
  The claim as stated fails for two requests 1000 seconds apart, at 3000 and at 4000
  seconds after the build, when the document has been edited in between: the first is
  answered from the snapshot and leaves the service as it is, the second rebuilds and
  returns other nodes.
\<close>

theorem ttl_between_operations_counterexample:
  "(4000::real) - 3000 \<le> 3600
   \<and> fst (get_all_terms edited_source 3000 served) = Inr (dict_values (build_nodes example_graph))
   \<and> snd (get_all_terms edited_source 3000 served) = served
   \<and> fst (get_all_terms edited_source 4000 served) = Inr (dict_values (build_nodes edited_graph))
   \<and> dict_values (build_nodes example_graph) \<noteq> dict_values (build_nodes edited_graph)"
proof -
  have "length (dict_values (build_nodes example_graph)) \<noteq>
      length (dict_values (build_nodes edited_graph))"
    by code_simp
  then have "dict_values (build_nodes example_graph) \<noteq> dict_values (build_nodes edited_graph)"
    by auto
  then show ?thesis
    by (simp add: served_eq get_all_terms_def get_parsed_data_def cache_stale_def
        parse_ontology_def edited_source_def)
qed

subsection \<open>Statistics\<close>

lemma fold_count_parent:
  "fold count_parent ps (a, b) =
     (a + length (filter (\<lambda>p. p_relationType p = ''subClassOf'') ps),
      b + length (filter (\<lambda>p. p_relationType p = ''partOf'') ps))"
  by (induction ps arbitrary: a b) auto

lemma fold_stats_step:
  "fold stats_step terms (a, b, l, m) =
     (a + (\<Sum>n\<leftarrow>terms. length (filter (\<lambda>p. p_relationType p = ''subClassOf'') (parents n))),
      b + (\<Sum>n\<leftarrow>terms. length (filter (\<lambda>p. p_relationType p = ''partOf'') (parents n))),
      l + length (filter isLeaf terms),
      Max (insert m ((\<lambda>n. length (parents n)) ` set terms)))"
proof (induction terms arbitrary: a b l m)
  case Nil
  show ?case by simp
next
  case (Cons t ts)
  have mx: "Max (insert (max m (length (parents t))) ((\<lambda>n. length (parents n)) ` set ts)) =
        Max (insert m ((\<lambda>n. length (parents n)) ` set (t # ts)))"
  proof -
    let ?S = "(\<lambda>n. length (parents n)) ` set ts"
    have f: "finite ?S" by simp
    show ?thesis
    proof (cases "?S = {}")
      case True
      then show ?thesis by (simp add: max.commute)
    next
      case False
      with f show ?thesis by (simp add: max.assoc insert_commute)
    qed
  qed
  show ?case
    by (simp add: fold_count_parent Cons.IH mx add.assoc del: Max_insert set_simps image_insert)
qed

text \<open>
  C8. For every snapshot, \<open>get_statistics\<close> returns: as \<open>subClassOf_relations\<close> and
  \<open>partOf_relations\<close> the number of parent edges of that type, summed over all nodes; as
  \<open>total_relations\<close> their sum; as \<open>leaf_nodes\<close> the number of nodes with \<open>isLeaf\<close> true;
  as \<open>max_depth\<close> the greatest number of parent edges any one node holds (0 for a
  snapshot without nodes).
\<close>

theorem statistics_counts:
  "subClassOf_relations (statistics_of data) =
     (\<Sum>n\<leftarrow>dict_values data. length (filter (\<lambda>p. p_relationType p = ''subClassOf'') (parents n)))
   \<and> partOf_relations (statistics_of data) =
     (\<Sum>n\<leftarrow>dict_values data. length (filter (\<lambda>p. p_relationType p = ''partOf'') (parents n)))
   \<and> total_relations (statistics_of data) =
       subClassOf_relations (statistics_of data) + partOf_relations (statistics_of data)
   \<and> leaf_nodes (statistics_of data) = length (filter isLeaf (dict_values data))
   \<and> max_depth (statistics_of data) =
       Max (insert 0 ((\<lambda>n. length (parents n)) ` set (dict_values data)))
   \<and> total_terms (statistics_of data) = length (dict_values data)
   \<and> get_statistics src now self =
       (case get_parsed_data src now self of
          (Inl e, self') \<Rightarrow> (Inl e, self')
        | (Inr d, self') \<Rightarrow> (Inr (statistics_of d), self'))"
  by (simp add: statistics_of_def Let_def fold_stats_step get_statistics_def
      del: Max_insert)

subsection \<open>Export\<close>

lemma map_of_fold_update:
  "distinct (map fst nodes) \<Longrightarrow>
   map_of (fold (\<lambda>(k, n) acc. AList.update k (f n) acc) nodes acc0) k =
     (case map_of nodes k of None \<Rightarrow> map_of acc0 k | Some n \<Rightarrow> Some (f n))"
proof (induction nodes arbitrary: acc0)
  case Nil
  show ?case by simp
next
  case (Cons x xs)
  obtain k0 n0 where x: "x = (k0, n0)" by (cases x)
  from Cons.prems x have d: "distinct (map fst xs)" and nk: "k0 \<notin> fst ` set xs" by auto
  from nk have none: "map_of xs k0 = None" by (simp add: map_of_eq_None_iff)
  show ?case
    using Cons.IH [OF d, of "AList.update k0 (f n0) acc0"] none
    by (auto simp: x update_conv' split: option.splits)
qed

lemma json_opt_str_inj: "json_opt_str a = json_opt_str b \<Longrightarrow> a = b"
  by (auto simp: json_opt_str_def split: option.splits)

lemma json_opt_int_inj: "json_opt_int a = json_opt_int b \<Longrightarrow> a = b"
  by (auto simp: json_opt_int_def split: option.splits)

lemma ChildRelation_dict_inj: "inj ChildRelation_dict"
  by (rule injI) (auto simp: ChildRelation_dict_def intro: ChildRelation.expand)

lemma ParentRelation_dict_inj: "inj ParentRelation_dict"
  by (rule injI) (auto simp: ParentRelation_dict_def intro: ParentRelation.expand)

lemma TreeNode_dict_inj:
  assumes "TreeNode_dict a = TreeNode_dict b"
  shows "a = b"
proof -
  from assms have f: "id_s a = id_s b" "json_opt_str (label a) = json_opt_str (label b)"
    "json_opt_str (label_zh a) = json_opt_str (label_zh b)"
    "json_opt_str (definition_en a) = json_opt_str (definition_en b)"
    "json_opt_str (definition_zh a) = json_opt_str (definition_zh b)"
    "json_opt_str (iri a) = json_opt_str (iri b)"
    "isLeaf a = isLeaf b" "json_opt_int (count a) = json_opt_int (count b)"
    "map ChildRelation_dict (children a) = map ChildRelation_dict (children b)"
    "map ParentRelation_dict (parents a) = map ParentRelation_dict (parents b)"
    by (simp_all add: TreeNode_dict_def)
  from f(9) have c: "children a = children b"
    by (simp add: inj_map_eq_map [OF ChildRelation_dict_inj])
  from f(10) have p: "parents a = parents b"
    by (simp add: inj_map_eq_map [OF ParentRelation_dict_inj])
  show ?thesis
    using f(1,7) json_opt_str_inj [OF f(2)] json_opt_str_inj [OF f(3)] json_opt_str_inj [OF f(4)]
      json_opt_str_inj [OF f(5)] json_opt_str_inj [OF f(6)] json_opt_int_inj [OF f(8)] c p
    by (intro TreeNode.equality) simp_all
qed

lemma TreeNode_dict_explicit:
  "TreeNode_dict n =
     JObject
       [(''id'', JString (id_s n)),
        (''label'', (case label n of None \<Rightarrow> JNull | Some t \<Rightarrow> JString t)),
        (''label_zh'', (case label_zh n of None \<Rightarrow> JNull | Some t \<Rightarrow> JString t)),
        (''definition'', (case definition_en n of None \<Rightarrow> JNull | Some t \<Rightarrow> JString t)),
        (''definition_zh'', (case definition_zh n of None \<Rightarrow> JNull | Some t \<Rightarrow> JString t)),
        (''iri'', (case iri n of None \<Rightarrow> JNull | Some t \<Rightarrow> JString t)),
        (''isLeaf'', JBool (isLeaf n)),
        (''count'', (case count n of None \<Rightarrow> JNull | Some i \<Rightarrow> JInt i)),
        (''children'',
           JArray (map (\<lambda>c. JObject [(''childId'', JString (childId c)),
                                     (''relationType'', JString (c_relationType c))])
                     (children n))),
        (''parents'',
           JArray (map (\<lambda>p. JObject [(''parentId'', JString (parentId p)),
                                     (''relationType'', JString (p_relationType p))])
                     (parents n)))]"
  by (simp add: TreeNode_dict_def json_opt_str_def json_opt_int_def ChildRelation_dict_def
      ParentRelation_dict_def cong: map_cong)


lemma export_basic:
  assumes "distinct (map fst nodes)"
    and "save_nodes_to_json env nodes output_file = Inr (path, obj)"
  shows "Option.bind (json_get obj ''metadata'') (\<lambda>m. json_get m ''total_nodes'') =
           Some (JInt (int (total_terms (statistics_of nodes))))"
    and "Option.bind (json_get obj ''nodes'') (\<lambda>ns. json_get ns k) =
              map_option TreeNode_dict (map_of nodes k)"
    and "path = (case output_file of
                   None \<Rightarrow> ''ontology_nodes_'' @ now_stamp env @ ''.json''
                 | Some f \<Rightarrow> f)"
proof -
  have tt: "total_terms (statistics_of nodes) = length nodes"
    by (simp add: statistics_of_def Let_def dict_values_def split: prod.splits)
  from assms(2) show
    "Option.bind (json_get obj ''metadata'') (\<lambda>m. json_get m ''total_nodes'') =
           Some (JInt (int (total_terms (statistics_of nodes))))"
    by (auto simp: save_nodes_to_json_def Let_def json_get_def tt split: if_splits option.splits)
  from assms(2) show "Option.bind (json_get obj ''nodes'') (\<lambda>ns. json_get ns k) =
              map_option TreeNode_dict (map_of nodes k)"
    by (auto simp: save_nodes_to_json_def Let_def json_get_def
        map_of_fold_update [OF assms(1)] split: if_splits option.splits)
  from assms(2) show "path = (case output_file of
                   None \<Rightarrow> ''ontology_nodes_'' @ now_stamp env @ ''.json''
                 | Some f \<Rightarrow> f)"
    by (auto simp: save_nodes_to_json_def Let_def split: if_splits option.splits)
qed

text \<open>
  C9. For every snapshot (a dictionary: no id occurs twice), when \<open>save_nodes_to_json\<close>
  writes its object: \<open>metadata.total_nodes\<close> is the \<open>total_terms\<close> that the statistics of
  the same snapshot give; the member \<open>nodes\<close> has an entry for every id of the snapshot
  and for no other key; the entry of a node is the object of its ten fields (id, the
  four texts, iri, isLeaf, count, the child edges and the parent edges, each edge with
  its id and relation type, in order), from which the node can be read back; and the
  path is the one given, or \<open>ontology_nodes_\<close> followed by the time stamp and \<open>.json\<close>
  when none was given. \<open>export_to_json\<close> is \<open>save_nodes_to_json\<close> on the snapshot
  \<open>_get_parsed_data\<close> returns.
\<close>

theorem export_contents:
  assumes "distinct (map fst nodes)"
    and "save_nodes_to_json env nodes output_file = Inr (path, obj)"
  shows "Option.bind (json_get obj ''metadata'') (\<lambda>m. json_get m ''total_nodes'') =
           Some (JInt (int (total_terms (statistics_of nodes))))
       \<and> (\<forall>k. Option.bind (json_get obj ''nodes'') (\<lambda>ns. json_get ns k) =
              map_option TreeNode_dict (map_of nodes k))
       \<and> path = (case output_file of
                   None \<Rightarrow> ''ontology_nodes_'' @ now_stamp env @ ''.json''
                 | Some f \<Rightarrow> f)
       \<and> export_to_json src env now self output_file =
           (case get_parsed_data src now self of
              (Inl e, self') \<Rightarrow> (Inl e, self')
            | (Inr d, self') \<Rightarrow> (save_nodes_to_json env d output_file, self'))
       \<and> (\<forall>k n. map_of nodes k = Some n \<longrightarrow>
             Option.bind (json_get obj ''nodes'') (\<lambda>ns. json_get ns k) =
               Some (JObject
                 [(''id'', JString (id_s n)),
                  (''label'', (case label n of None \<Rightarrow> JNull | Some t \<Rightarrow> JString t)),
                  (''label_zh'', (case label_zh n of None \<Rightarrow> JNull | Some t \<Rightarrow> JString t)),
                  (''definition'',
                     (case definition_en n of None \<Rightarrow> JNull | Some t \<Rightarrow> JString t)),
                  (''definition_zh'',
                     (case definition_zh n of None \<Rightarrow> JNull | Some t \<Rightarrow> JString t)),
                  (''iri'', (case iri n of None \<Rightarrow> JNull | Some t \<Rightarrow> JString t)),
                  (''isLeaf'', JBool (isLeaf n)),
                  (''count'', (case count n of None \<Rightarrow> JNull | Some i \<Rightarrow> JInt i)),
                  (''children'',
                     JArray (map (\<lambda>c. JObject [(''childId'', JString (childId c)),
                                               (''relationType'', JString (c_relationType c))])
                               (children n))),
                  (''parents'',
                     JArray (map (\<lambda>p. JObject [(''parentId'', JString (parentId p)),
                                               (''relationType'', JString (p_relationType p))])
                               (parents n)))]))
       \<and> (\<forall>k. map_of nodes k = None \<longrightarrow>
             Option.bind (json_get obj ''nodes'') (\<lambda>ns. json_get ns k) = None)
       \<and> (\<forall>n n'. TreeNode_dict n = TreeNode_dict n' \<longrightarrow> n = n')"
proof -
  note b = export_basic [OF assms]
  have c4: "export_to_json src env now self output_file =
           (case get_parsed_data src now self of
              (Inl e, self') \<Rightarrow> (Inl e, self')
            | (Inr d, self') \<Rightarrow> (save_nodes_to_json env d output_file, self'))"
    by (simp add: export_to_json_def)
  have c2: "\<forall>k. Option.bind (json_get obj ''nodes'') (\<lambda>ns. json_get ns k) =
              map_option TreeNode_dict (map_of nodes k)"
    using b(2) by blast
  have c5: "\<forall>k n. map_of nodes k = Some n \<longrightarrow>
             Option.bind (json_get obj ''nodes'') (\<lambda>ns. json_get ns k) =
               Some (JObject
                 [(''id'', JString (id_s n)),
                  (''label'', (case label n of None \<Rightarrow> JNull | Some t \<Rightarrow> JString t)),
                  (''label_zh'', (case label_zh n of None \<Rightarrow> JNull | Some t \<Rightarrow> JString t)),
                  (''definition'',
                     (case definition_en n of None \<Rightarrow> JNull | Some t \<Rightarrow> JString t)),
                  (''definition_zh'',
                     (case definition_zh n of None \<Rightarrow> JNull | Some t \<Rightarrow> JString t)),
                  (''iri'', (case iri n of None \<Rightarrow> JNull | Some t \<Rightarrow> JString t)),
                  (''isLeaf'', JBool (isLeaf n)),
                  (''count'', (case count n of None \<Rightarrow> JNull | Some i \<Rightarrow> JInt i)),
                  (''children'',
                     JArray (map (\<lambda>c. JObject [(''childId'', JString (childId c)),
                                               (''relationType'', JString (c_relationType c))])
                               (children n))),
                  (''parents'',
                     JArray (map (\<lambda>p. JObject [(''parentId'', JString (parentId p)),
                                               (''relationType'', JString (p_relationType p))])
                               (parents n)))])"
    by (simp add: b(2) TreeNode_dict_explicit)
  have c6: "\<forall>k. map_of nodes k = None \<longrightarrow>
             Option.bind (json_get obj ''nodes'') (\<lambda>ns. json_get ns k) = None"
    by (simp add: b(2))
  have c7: "\<forall>n n'. TreeNode_dict n = TreeNode_dict n' \<longrightarrow> n = n'"
    using TreeNode_dict_inj by blast
  show ?thesis
    by (intro conjI) (fact b(1) c2 b(3) c4 c5 c6 c7)+
qed

theorem export_contents_witness:
  "distinct (map fst (build_nodes example_graph))
   \<and> save_nodes_to_json example_env (build_nodes example_graph) None \<noteq> Inl ExportFailed
   \<and> fst (projr (save_nodes_to_json example_env (build_nodes example_graph) None)) =
       ''ontology_nodes_20240101_120000.json''
   \<and> Option.bind
       (json_get (snd (projr (save_nodes_to_json example_env (build_nodes example_graph) None)))
          ''metadata'')
       (\<lambda>m. json_get m ''total_nodes'') = Some (JInt 4)
   \<and> Option.bind
       (json_get (snd (projr (save_nodes_to_json example_env (build_nodes example_graph) None)))
          ''nodes'')
       (\<lambda>ns. json_get ns ''MS_4'') =
       Some (JObject
               [(''id'', JString ''MS_4''), (''label'', JNull), (''label_zh'', JNull),
                (''definition'', JNull), (''definition_zh'', JNull), (''iri'', JNull),
                (''isLeaf'', JBool False), (''count'', JInt 1),
                (''children'',
                   JArray [JObject [(''childId'', JString ''MS_3''),
                                    (''relationType'', JString ''partOf'')]]),
                (''parents'', JArray [])])
   \<and> Option.bind
       (json_get (snd (projr (save_nodes_to_json example_env (build_nodes example_graph) None)))
          ''nodes'')
       (\<lambda>ns. json_get ns ''MS_5'') = None"
proof -
  let ?r = "save_nodes_to_json example_env (build_nodes example_graph) None"
  have d: "distinct (map fst (build_nodes example_graph))" by code_simp
  have ok: "?r = Inr (fst (projr ?r), snd (projr ?r))"
    by (simp add: save_nodes_to_json_def Let_def example_env_def)
  have ok': "?r \<noteq> Inl ExportFailed"
    by (simp add: save_nodes_to_json_def Let_def example_env_def)
  have n: "total_terms (statistics_of (build_nodes example_graph)) = 4" by code_simp
  have m4: "map_of (build_nodes example_graph) ''MS_4'' =
      Some \<lparr>id_s = ''MS_4'', label = None, label_zh = None, definition_en = None,
            definition_zh = None, iri = None, isLeaf = False, count = Some 1,
            children = [ChildRelation ''MS_3'' ''partOf''], parents = []\<rparr>"
    by code_simp
  have m5: "map_of (build_nodes example_graph) ''MS_5'' = None" by code_simp
  note t = export_contents [OF d ok, of example_source 0 served]
  from t n have a1: "Option.bind (json_get (snd (projr ?r)) ''metadata'')
       (\<lambda>m. json_get m ''total_nodes'') = Some (JInt 4)"
    by simp
  from t have a2: "fst (projr ?r) = ''ontology_nodes_20240101_120000.json''"
    by (simp add: example_env_def)
  from t m4 have "Option.bind (json_get (snd (projr ?r)) ''nodes'') (\<lambda>ns. json_get ns ''MS_4'') =
       Some (let n = \<lparr>id_s = ''MS_4'', label = None, label_zh = None, definition_en = None,
            definition_zh = None, iri = None, isLeaf = False, count = Some 1,
            children = [ChildRelation ''MS_3'' ''partOf''], parents = []\<rparr> in JObject
                 [(''id'', JString (id_s n)),
                  (''label'', (case label n of None \<Rightarrow> JNull | Some t \<Rightarrow> JString t)),
                  (''label_zh'', (case label_zh n of None \<Rightarrow> JNull | Some t \<Rightarrow> JString t)),
                  (''definition'',
                     (case definition_en n of None \<Rightarrow> JNull | Some t \<Rightarrow> JString t)),
                  (''definition_zh'',
                     (case definition_zh n of None \<Rightarrow> JNull | Some t \<Rightarrow> JString t)),
                  (''iri'', (case iri n of None \<Rightarrow> JNull | Some t \<Rightarrow> JString t)),
                  (''isLeaf'', JBool (isLeaf n)),
                  (''count'', (case count n of None \<Rightarrow> JNull | Some i \<Rightarrow> JInt i)),
                  (''children'',
                     JArray (map (\<lambda>c. JObject [(''childId'', JString (childId c)),
                                               (''relationType'', JString (c_relationType c))])
                               (children n))),
                  (''parents'',
                     JArray (map (\<lambda>p. JObject [(''parentId'', JString (parentId p)),
                                               (''relationType'', JString (p_relationType p))])
                               (parents n)))])"
    unfolding Let_def by blast
  then have a3: "Option.bind (json_get (snd (projr ?r)) ''nodes'') (\<lambda>ns. json_get ns ''MS_4'') =
       Some (JObject
               [(''id'', JString ''MS_4''), (''label'', JNull), (''label_zh'', JNull),
                (''definition'', JNull), (''definition_zh'', JNull), (''iri'', JNull),
                (''isLeaf'', JBool False), (''count'', JInt 1),
                (''children'',
                   JArray [JObject [(''childId'', JString ''MS_3''),
                                    (''relationType'', JString ''partOf'')]]),
                (''parents'', JArray [])])"
    by (simp add: Let_def)
  from t m5 have a4: "Option.bind (json_get (snd (projr ?r)) ''nodes'')
      (\<lambda>ns. json_get ns ''MS_5'') = None"
    by blast
  show ?thesis
    by (intro conjI) (fact d ok' a2 a1 a3 a4)+
qed

end
